theory Spec2Isabelle
  imports Complex_Main
begin

section \<open>Values, completions and promises\<close>

text \<open>
  The orchestrator of \<^verbatim>\<open>src/ARnft.ts\<close> is effectful: it registers an event listener,
  awaits a promise inside that listener and re-schedules itself with
  \<^verbatim>\<open>requestAnimationFrame\<close>. The model is a state machine on a \<open>world\<close>: every host
  action (a call of \<^verbatim>\<open>init\<close>, the dispatch of the \<^verbatim>\<open>getConfig\<close> event, the settlement of
  the camera promise, an animation frame, a call of \<^verbatim>\<open>dispose\<close>) is one function on the
  world, and every call the orchestrator issues to a collaborator is appended to a trace.

  Values that the orchestrator only passes on (video settings, camera parameters, frames,
  error values of type \<^verbatim>\<open>any\<close>) are \<open>jsval\<close>s. \<open>JTypeError\<close> is the error thrown by a
  property access on \<^verbatim>\<open>undefined\<close>.
\<close>

datatype jsval = JUndefined | JBool bool | JString string | JObject nat | JTypeError

datatype 'a completion = Normal 'a | Throw jsval

datatype 'a promise = Fulfilled 'a | Rejected jsval

section \<open>Data model\<close>

text \<open>The interface \<^verbatim>\<open>Entity\<close> (lines 46-49).\<close>

record Entity =
  name :: string
  markerUrl :: string

text \<open>
  Modelled from the spec: \<^verbatim>\<open>ConfigData\<close> (\<^verbatim>\<open>src/config/ConfigData\<close>, not among the sources).
  The configuration object exposes \<^verbatim>\<open>videoSettings\<close>, \<^verbatim>\<open>cameraPara\<close> and \<^verbatim>\<open>stats.createHtml\<close>;
  the orchestrator reads exactly these three.
\<close>

record ConfigData =
  videoSettings :: jsval
  cameraPara :: jsval
  stats_createHtml :: bool

text \<open>
  Modelled from the spec: \<^verbatim>\<open>NFTWorker\<close> (\<^verbatim>\<open>src/NFTWorker\<close>, not among the sources). Its
  constructor binds (marker locator, width, height, owner identity, name) and performs no
  I/O, so a session is the record of what it was constructed with, plus the number of
  sessions constructed before it (its object identity). The name is \<^verbatim>\<open>names[index]\<close>,
  which is \<^verbatim>\<open>undefined\<close> (\<open>None\<close>) when \<^verbatim>\<open>names\<close> is too short.
\<close>

record 'n NFTWorker =
  worker_id :: nat
  worker_markerUrl :: string
  worker_width :: 'n
  worker_height :: 'n
  worker_uuid :: string
  worker_name :: "string option"

text \<open>
  The instance fields of class \<^verbatim>\<open>ARnft\<close> (lines 52-66). A field that has not been assigned
  yet is \<open>None\<close>. \<open>fps\<close> is \<^verbatim>\<open>_fps\<close> and \<open>lastTime\<close> is \<^verbatim>\<open>_lastTime\<close>; the field
  \<^verbatim>\<open>markerUrl\<close> of the instance is \<open>this_markerUrl\<close>. \<^verbatim>\<open>cameraView\<close> holds the identity of a
  \<^verbatim>\<open>CameraViewRenderer\<close> (the number of renderers constructed before it). The type \<open>'n\<close> is
  the type of numbers, with its literals and its division; nothing is assumed of the
  division.
\<close>

datatype EventTarget = Window

record 'n ARnft =
  cameraView :: "nat option"
  appData :: "ConfigData option"
  width :: 'n
  height :: 'n
  configUrl :: string
  listeners :: "jsval option"
  this_markerUrl :: "string option"
  camData :: "string option"
  controllers :: "'n NFTWorker list option"
  target :: EventTarget
  uuid :: string
  version :: string
  fps :: 'n
  lastTime :: 'n

text \<open>
  Closures. The listener registered at line 168 captures \<^verbatim>\<open>this\<close>, \<^verbatim>\<open>markerUrls\<close>, \<^verbatim>\<open>names\<close>
  and \<^verbatim>\<open>stats\<close>; \<^verbatim>\<open>update\<close> (line 210) captures \<^verbatim>\<open>this\<close> and \<^verbatim>\<open>index\<close>; the two callbacks
  handed to a session (lines 197-206) capture \<^verbatim>\<open>stats\<close> and one of the two panels.
  \<^verbatim>\<open>this\<close> is the address of the instance in \<open>instances\<close>.
\<close>

record listener =
  l_this :: nat
  l_markerUrls :: "string list"
  l_names :: "string list"
  l_stats :: bool

record update_closure =
  u_this :: nat
  u_index :: nat

datatype panel = StatsMain | StatsWorker

datatype tick_callback = UpdateIfStats bool panel

text \<open>
  Modelled from the spec: the collaborators \<^verbatim>\<open>Container\<close>, \<^verbatim>\<open>Stats\<close>, \<^verbatim>\<open>CameraViewRenderer\<close>,
  \<^verbatim>\<open>NFTWorker\<close> and \<^verbatim>\<open>getConfig\<close> are not among the sources. By their interfaces each of
  their operations is a call that returns; the asynchronous ones (\<^verbatim>\<open>getConfig\<close>, the
  \<^verbatim>\<open>initialize\<close> of the Camera View) complete in an action of their own. The model records
  every call issued to them, to the console and to the host, in the order issued.
\<close>

datatype 'n call =
    ConsoleLog "string list"
  | ConsoleError jsval
  | DispatchEvent string
  | GetConfig string
  | AddEventListener string listener
  | CreateContainer ConfigData
  | CreateLoading ConfigData
  | CreateStats bool ConfigData
  | NewStats panel
  | ShowPanel panel nat
  | AppendChild string panel
  | NewCameraViewRenderer nat string
  | CameraInitialize nat jsval
  | CameraGetImage nat
  | CameraDestroy nat
  | NewNFTWorker "'n NFTWorker"
  | WorkerInitialize "'n NFTWorker" jsval jsval tick_callback tick_callback
  | WorkerProcess "'n NFTWorker" jsval
  | StopNFT
  | RequestAnimationFrame update_closure
  | UnhandledRejection jsval
  | UncaughtError jsval

text \<open>
  The world: the static field \<^verbatim>\<open>ARnft.entities\<close>, the instances constructed so far, the
  listeners registered on the window for \<^verbatim>\<open>getConfig\<close>, the listener runs suspended at
  \<^verbatim>\<open>await this.cameraView.initialize(...)\<close> (each with the renderer it waits for), the
  callbacks queued by \<^verbatim>\<open>requestAnimationFrame\<close>, the counters that give fresh identities,
  the frame \<^verbatim>\<open>getImage()\<close> currently returns, and the trace.
\<close>

record 'n world =
  entities :: "Entity list option"
  instances :: "'n ARnft list"
  getConfig_listeners :: "listener list"
  awaiting_camera :: "(nat \<times> listener) list"
  animation_callbacks :: "update_closure list"
  uuid_calls :: nat
  cameras_created :: nat
  workers_created :: nat
  video_frame :: jsval
  trace :: "'n call list"

text \<open>
  What the model takes from outside the file: the version string of \<^verbatim>\<open>package.json\<close>
  and the results of the successive calls of \<^verbatim>\<open>uuidv4()\<close>.
\<close>

record env =
  package_version :: string
  uuidv4 :: "nat \<Rightarrow> string"

definition initial_world :: "'n world" where
  "initial_world =
     \<lparr>entities = None, instances = [], getConfig_listeners = [], awaiting_camera = [],
      animation_callbacks = [], uuid_calls = 0, cameras_created = 0, workers_created = 0,
      video_frame = JUndefined, trace = []\<rparr>"

section \<open>Helpers\<close>

definition calls :: "'n call list \<Rightarrow> 'n world \<Rightarrow> 'n world" where
  "calls cs w = w\<lparr>trace := trace w @ cs\<rparr>"

definition this_at :: "nat \<Rightarrow> 'n world \<Rightarrow> 'n ARnft option" where
  "this_at a w = (if a < length (instances w) then Some (instances w ! a) else None)"

definition set_this :: "nat \<Rightarrow> ('n ARnft \<Rightarrow> 'n ARnft) \<Rightarrow> 'n world \<Rightarrow> 'n world" where
  "set_this a f w = w\<lparr>instances := (instances w)[a := f (instances w ! a)]\<rparr>"

text \<open>An array read \<^verbatim>\<open>xs[i]\<close>: \<^verbatim>\<open>undefined\<close> out of range.\<close>

definition nth_opt :: "'a list \<Rightarrow> nat \<Rightarrow> 'a option" where
  "nth_opt xs i = (if i < length xs then Some (xs ! i) else None)"

section \<open>The class\<close>

text \<open>\<^verbatim>\<open>setFPS\<close> (lines 220-222): one division of the number type, no failing branch.\<close>

definition setFPS :: "'n::{numeral,inverse} \<Rightarrow> 'n ARnft \<Rightarrow> unit completion \<times> 'n ARnft" where
  "setFPS value this = (Normal (), this\<lparr>fps := 1000 / value\<rparr>)"

text \<open>
  The constructor (lines 78-88), after the field initialisers of lines 65-66. It returns
  the address of the new instance.
\<close>

definition new_ARnft ::
  "env \<Rightarrow> 'n::{zero,numeral,inverse} \<Rightarrow> 'n \<Rightarrow> string \<Rightarrow> 'n world \<Rightarrow> nat completion \<times> 'n world" where
  "new_ARnft E width' height' configUrl' w =
     (let this0 = \<lparr>cameraView = None, appData = None, width = width', height = height',
                   configUrl = configUrl', listeners = None, this_markerUrl = None,
                   camData = None, controllers = None, target = Window,
                   uuid = uuidv4 E (uuid_calls w), version = package_version E,
                   fps = 15, lastTime = 0\<rparr>;
          w1 = w\<lparr>uuid_calls := Suc (uuid_calls w)\<rparr>
      in case setFPS (fps this0) this0 of
           (Throw e, _) \<Rightarrow> (Throw e, w1)
         | (Normal _, this1) \<Rightarrow>
             (Normal (length (instances w1)),
              calls [ConsoleLog [''ARnft '', version this1]]
                (w1\<lparr>instances := instances w1 @ [this1]\<rparr>)))"

text \<open>The arguments of the \<^verbatim>\<open>console.log\<close> of lines 163-166.\<close>

definition init_start_message :: "string list" where
  "init_start_message =
     [''ARnft init() %cstart...'',
      ''color: yellow; background-color: blue; border-radius: 4px; padding: 2px'']"

text \<open>
  \<^verbatim>\<open>_initialize\<close> (lines 160-218), up to its \<^verbatim>\<open>return\<close>. \<^verbatim>\<open>getConfig\<close> is a fire-and-forget
  request; the event it leads to is the separate action \<open>dispatch_getConfig\<close>. The body of
  the listener is \<open>on_getConfig\<close> and \<open>resume\<close> below. The first branch is a call with no
  instance as its \<^verbatim>\<open>this\<close>; \<^verbatim>\<open>init\<close> never takes it.
\<close>

definition initialize ::
  "nat \<Rightarrow> string list \<Rightarrow> string list \<Rightarrow> bool \<Rightarrow> 'n world \<Rightarrow> nat promise \<times> 'n world" where
  "initialize a markerUrls names stats w =
     (case this_at a w of
        None \<Rightarrow> (Rejected JTypeError, w)
      | Some this \<Rightarrow>
          (let l = \<lparr>l_this = a, l_markerUrls = markerUrls, l_names = names, l_stats = stats\<rparr>;
               w1 = calls [DispatchEvent ''initARnft'', ConsoleLog init_start_message,
                           GetConfig (configUrl this), AddEventListener ''getConfig'' l] w
           in (Fulfilled a, w1\<lparr>getConfig_listeners := getConfig_listeners w1 @ [l]\<rparr>)))"

text \<open>
  \<^verbatim>\<open>init\<close> (lines 102-115). An exception of the constructor rejects the promise of the
  \<^verbatim>\<open>async\<close> function as it is; a rejection of \<^verbatim>\<open>_initialize\<close> is logged and replaced by
  \<^verbatim>\<open>false\<close>. The result is the outcome the returned promise settles with and the world the
  call leaves; when the promise settles is the matter of \<open>async_call\<close> below.
\<close>

definition init ::
  "env \<Rightarrow> 'n::{zero,numeral,inverse} \<Rightarrow> 'n \<Rightarrow> string list \<Rightarrow> string list \<Rightarrow> string \<Rightarrow> bool
     \<Rightarrow> 'n world \<Rightarrow> nat promise \<times> 'n world" where
  "init E width' height' markerUrls names configUrl' stats w =
     (case new_ARnft E width' height' configUrl' w of
        (Throw e, w1) \<Rightarrow> (Rejected e, w1)
      | (Normal arnft, w1) \<Rightarrow>
          (case initialize arnft markerUrls names stats w1 of
             (Fulfilled v, w2) \<Rightarrow> (Fulfilled v, w2)
           | (Rejected error, w2) \<Rightarrow> (Rejected (JBool False), calls [ConsoleError error] w2)))"

text \<open>\<^verbatim>\<open>initWithEntities\<close> (lines 130-149).\<close>

definition initWithEntities ::
  "env \<Rightarrow> 'n::{zero,numeral,inverse} \<Rightarrow> 'n \<Rightarrow> Entity list \<Rightarrow> string \<Rightarrow> bool
     \<Rightarrow> 'n world \<Rightarrow> nat promise \<times> 'n world" where
  "initWithEntities E width' height' entities' configUrl' stats w =
     (case new_ARnft E width' height' configUrl' w of
        (Throw e, w1) \<Rightarrow> (Rejected e, w1)
      | (Normal arnft, w1) \<Rightarrow>
          (let w2 = w1\<lparr>entities := Some entities'\<rparr>
           in case entities w2 of
                None \<Rightarrow> (Rejected JTypeError, w2)
              | Some es \<Rightarrow>
                  (let markerUrls = map markerUrl es;
                       names = map name es
                   in case initialize arnft markerUrls names stats w2 of
                        (Fulfilled v, w3) \<Rightarrow> (Fulfilled v, w3)
                      | (Rejected error, w3) \<Rightarrow>
                          (Rejected (JBool False), calls [ConsoleError error] w3))))"

text \<open>
  \<^verbatim>\<open>update\<close> (lines 210-213): one \<^verbatim>\<open>process\<close> of the current frame by
  \<^verbatim>\<open>this.controllers[index]\<close>, then \<^verbatim>\<open>requestAnimationFrame(update)\<close>.
\<close>

definition update :: "update_closure \<Rightarrow> 'n world \<Rightarrow> unit completion \<times> 'n world" where
  "update u w =
     (case this_at (u_this u) w of
        None \<Rightarrow> (Throw JTypeError, w)
      | Some this \<Rightarrow>
          (case controllers this of
             None \<Rightarrow> (Throw JTypeError, w)
           | Some cs \<Rightarrow>
               (case nth_opt cs (u_index u) of
                  None \<Rightarrow> (Throw JTypeError, w)
                | Some c \<Rightarrow>
                    (case cameraView this of
                       None \<Rightarrow> (Throw JTypeError, w)
                     | Some cam \<Rightarrow>
                         (let w1 = calls [CameraGetImage cam, WorkerProcess c (video_frame w),
                                          RequestAnimationFrame u] w
                          in (Normal (),
                              w1\<lparr>animation_callbacks := animation_callbacks w1 @ [u]\<rparr>))))))"

text \<open>The body of the \<^verbatim>\<open>forEach\<close> callback (lines 193-214).\<close>

definition marker_body ::
  "listener \<Rightarrow> string \<Rightarrow> nat \<Rightarrow> 'n world \<Rightarrow> unit completion \<times> 'n world" where
  "marker_body l markerUrl' index w =
     (case this_at (l_this l) w of
        None \<Rightarrow> (Throw JTypeError, w)
      | Some this \<Rightarrow>
          (case controllers this of
             None \<Rightarrow> (Throw JTypeError, w)
           | Some cs \<Rightarrow>
               (let worker = \<lparr>worker_id = workers_created w, worker_markerUrl = markerUrl',
                              worker_width = width this, worker_height = height this,
                              worker_uuid = uuid this,
                              worker_name = nth_opt (l_names l) index\<rparr>;
                    cs' = cs @ [worker];
                    w1 = calls [NewNFTWorker worker]
                           (set_this (l_this l) (\<lambda>t. t\<lparr>controllers := Some cs'\<rparr>)
                              (w\<lparr>workers_created := Suc (workers_created w)\<rparr>))
                in case nth_opt cs' index of
                     None \<Rightarrow> (Throw JTypeError, w1)
                   | Some c \<Rightarrow>
                       (case appData this of
                          None \<Rightarrow> (Throw JTypeError, w1)
                        | Some config \<Rightarrow>
                            (case cameraView this of
                               None \<Rightarrow> (Throw JTypeError, w1)
                             | Some cam \<Rightarrow>
                                 (let w2 = calls [CameraGetImage cam,
                                                  WorkerInitialize c (cameraPara config)
                                                    (video_frame w1)
                                                    (UpdateIfStats (l_stats l) StatsMain)
                                                    (UpdateIfStats (l_stats l) StatsWorker)] w1;
                                      w3 = calls [CameraGetImage cam,
                                                  WorkerProcess c (video_frame w2)] w2
                                  in update \<lparr>u_this = l_this l, u_index = index\<rparr> w3))))))"

text \<open>\<^verbatim>\<open>markerUrls.forEach\<close> (line 192): in input order, stopping at the first exception.\<close>

fun forEach_markers ::
  "listener \<Rightarrow> string list \<Rightarrow> nat \<Rightarrow> 'n world \<Rightarrow> unit completion \<times> 'n world" where
  "forEach_markers l [] index w = (Normal (), w)"
| "forEach_markers l (m # ms) index w =
     (case marker_body l m index w of
        (Throw e, w1) \<Rightarrow> (Throw e, w1)
      | (Normal _, w1) \<Rightarrow> forEach_markers l ms (Suc index) w1)"

text \<open>
  The listener (lines 168-216) from its start to the \<^verbatim>\<open>await\<close> of line 188: it stores the
  configuration, has the containers made, makes the panels when \<^verbatim>\<open>stats\<close> is set, empties
  \<^verbatim>\<open>controllers\<close>, constructs the Camera View, calls its \<^verbatim>\<open>initialize\<close> and suspends.
  The document is taken to contain the elements \<^verbatim>\<open>video\<close>, \<^verbatim>\<open>stats1\<close> and \<^verbatim>\<open>stats2\<close>.
  \<^verbatim>\<open>this.appData\<close>, read back after the assignment of line 169, is the configuration
  of the event.
\<close>

definition on_getConfig :: "ConfigData \<Rightarrow> listener \<Rightarrow> 'n world \<Rightarrow> 'n world" where
  "on_getConfig config l w =
     (let w1 = set_this (l_this l) (\<lambda>t. t\<lparr>appData := Some config\<rparr>) w;
          w2 = calls [CreateContainer config, CreateLoading config,
                      CreateStats (stats_createHtml config) config] w1;
          w3 = (if l_stats l
                then calls [NewStats StatsMain, ShowPanel StatsMain 0,
                            AppendChild ''stats1'' StatsMain,
                            NewStats StatsWorker, ShowPanel StatsWorker 0,
                            AppendChild ''stats2'' StatsWorker] w2
                else w2);
          w4 = set_this (l_this l) (\<lambda>t. t\<lparr>controllers := Some []\<rparr>) w3;
          cam = cameras_created w4;
          w5 = calls [NewCameraViewRenderer cam ''video'']
                 (set_this (l_this l) (\<lambda>t. t\<lparr>cameraView := Some cam\<rparr>)
                    (w4\<lparr>cameras_created := Suc cam\<rparr>));
          w6 = calls [CameraInitialize cam (videoSettings config)] w5
      in w6\<lparr>awaiting_camera := awaiting_camera w6 @ [(cam, l)]\<rparr>)"

text \<open>
  Modelled from the spec: the Config Loader Adapter (\<^verbatim>\<open>getConfig\<close>, not among the sources)
  emits the config-ready event asynchronously, carrying the configuration. At the
  dispatch every listener registered for \<^verbatim>\<open>getConfig\<close> runs, in registration order, up to
  its \<^verbatim>\<open>await\<close>.
\<close>

definition dispatch_getConfig :: "ConfigData \<Rightarrow> 'n world \<Rightarrow> 'n world" where
  "dispatch_getConfig config w = fold (on_getConfig config) (getConfig_listeners w) w"

text \<open>
  The listener after the \<^verbatim>\<open>await\<close> (lines 188-215). When the promise of
  \<^verbatim>\<open>cameraView.initialize\<close> rejects, the handler of lines 188-191 logs the error and
  returns \<^verbatim>\<open>Promise.reject(false)\<close>: the \<^verbatim>\<open>await\<close> throws \<^verbatim>\<open>false\<close>, the listener's own
  promise rejects with it, and nobody holds that promise. When it fulfils, the
  \<^verbatim>\<open>forEach\<close> runs.
\<close>

definition resume :: "unit promise \<Rightarrow> listener \<Rightarrow> 'n world \<Rightarrow> 'n world" where
  "resume outcome l w =
     (case outcome of
        Rejected error \<Rightarrow> calls [ConsoleError error, UnhandledRejection (JBool False)] w
      | Fulfilled _ \<Rightarrow>
          (case forEach_markers l (l_markerUrls l) 0 w of
             (Normal _, w1) \<Rightarrow> w1
           | (Throw e, w1) \<Rightarrow> calls [UnhandledRejection e] w1))"

text \<open>
  Modelled from the spec: \<^verbatim>\<open>CameraViewRenderer.initialize\<close> (not among the sources) is
  asynchronous and fails when the device or stream cannot be acquired. When the promise of
  renderer \<open>cam\<close> settles, the run that awaits it resumes.
\<close>

definition camera_settled :: "nat \<Rightarrow> unit promise \<Rightarrow> 'n world \<Rightarrow> 'n world" where
  "camera_settled cam outcome w =
     fold (resume outcome)
       (map snd (filter (\<lambda>p. fst p = cam) (awaiting_camera w)))
       (w\<lparr>awaiting_camera := filter (\<lambda>p. fst p \<noteq> cam) (awaiting_camera w)\<rparr>)"

text \<open>
  One animation frame: the callbacks queued so far run in order; what they queue is for
  the next frame. An exception of a callback is reported by the host.
\<close>

definition run_callback :: "update_closure \<Rightarrow> 'n world \<Rightarrow> 'n world" where
  "run_callback u w =
     (case update u w of
        (Normal _, w1) \<Rightarrow> w1
      | (Throw e, w1) \<Rightarrow> calls [UncaughtError e] w1)"

definition animation_frame :: "'n world \<Rightarrow> 'n world" where
  "animation_frame w =
     fold run_callback (animation_callbacks w) (w\<lparr>animation_callbacks := []\<rparr>)"

text \<open>\<^verbatim>\<open>getEntities\<close> (lines 224-226) and \<^verbatim>\<open>getEventTarget\<close> (lines 228-230).\<close>

definition getEntities :: "'n world \<Rightarrow> Entity list option" where
  "getEntities w = entities w"

definition getEventTarget :: "nat \<Rightarrow> 'n world \<Rightarrow> EventTarget completion" where
  "getEventTarget a w =
     (case this_at a w of None \<Rightarrow> Throw JTypeError | Some this \<Rightarrow> Normal (target this))"

text \<open>
  \<^verbatim>\<open>disposeVideoStream\<close> (lines 250-252), \<^verbatim>\<open>disposeNFT\<close> (lines 243-245) and \<^verbatim>\<open>dispose\<close>
  (lines 235-238). \<^verbatim>\<open>this.cameraView.destroy()\<close> on an instance whose \<^verbatim>\<open>cameraView\<close> is
  still \<^verbatim>\<open>undefined\<close> throws a TypeError, as does a method called with no instance as its
  \<^verbatim>\<open>this\<close>.
\<close>

definition disposeVideoStream :: "nat \<Rightarrow> 'n world \<Rightarrow> unit completion \<times> 'n world" where
  "disposeVideoStream a w =
     (case this_at a w of
        None \<Rightarrow> (Throw JTypeError, w)
      | Some this \<Rightarrow>
          (case cameraView this of
             None \<Rightarrow> (Throw JTypeError, w)
           | Some cam \<Rightarrow> (Normal (), calls [CameraDestroy cam] w)))"

definition disposeNFT :: "nat \<Rightarrow> 'n world \<Rightarrow> unit completion \<times> 'n world" where
  "disposeNFT a w = (Normal (), calls [StopNFT] w)"

definition dispose :: "nat \<Rightarrow> 'n world \<Rightarrow> unit completion \<times> 'n world" where
  "dispose a w =
     (case disposeVideoStream a w of
        (Throw e, w1) \<Rightarrow> (Throw e, w1)
      | (Normal _, w1) \<Rightarrow> disposeNFT a w1)"

section \<open>Host actions\<close>

text \<open>
  What the host can do to the world, one action at a time: the calls of the public
  interface, the dispatch of the config-ready event, the settlement of a camera promise,
  an animation frame, a new video frame.
\<close>

datatype 'n action =
    CallInit 'n 'n "string list" "string list" string bool
  | CallInitWithEntities 'n 'n "Entity list" string bool
  | ConfigReady ConfigData
  | CameraSettled nat "unit promise"
  | AnimationFrame
  | VideoFrame jsval
  | CallSetFPS nat 'n
  | CallDispose nat
  | CallDisposeNFT nat
  | CallDisposeVideoStream nat

fun step :: "env \<Rightarrow> 'n::{zero,numeral,inverse} action \<Rightarrow> 'n world \<Rightarrow> 'n world" where
  "step E (CallInit wd ht urls nms cfg st) w = snd (init E wd ht urls nms cfg st w)"
| "step E (CallInitWithEntities wd ht es cfg st) w = snd (initWithEntities E wd ht es cfg st w)"
| "step E (ConfigReady config) w = dispatch_getConfig config w"
| "step E (CameraSettled cam outcome) w = camera_settled cam outcome w"
| "step E AnimationFrame w = animation_frame w"
| "step E (VideoFrame f) w = w\<lparr>video_frame := f\<rparr>"
| "step E (CallSetFPS a v) w =
     (case this_at a w of
        None \<Rightarrow> w
      | Some this \<Rightarrow> set_this a (\<lambda>t. snd (setFPS v t)) w)"
| "step E (CallDispose a) w = snd (dispose a w)"
| "step E (CallDisposeNFT a) w = snd (disposeNFT a w)"
| "step E (CallDisposeVideoStream a) w = snd (disposeVideoStream a w)"

definition run :: "env \<Rightarrow> 'n::{zero,numeral,inverse} action list \<Rightarrow> 'n world \<Rightarrow> 'n world" where
  "run E acts w = fold (step E) acts w"

section \<open>The promise of a call\<close>

text \<open>
  \<^verbatim>\<open>init\<close> and \<^verbatim>\<open>initWithEntities\<close> are \<^verbatim>\<open>async\<close> functions (lines 102 and 130), and so is
  \<^verbatim>\<open>_initialize\<close> (line 160), which has no \<^verbatim>\<open>await\<close>. A call runs synchronously up to the
  \<^verbatim>\<open>await\<close> of line 111 (line 145): the constructor and the whole body of \<^verbatim>\<open>_initialize\<close>,
  which is what \<open>init\<close> and \<open>initWithEntities\<close> above do to the world. The caller is
  handed a promise that is still pending. What is left of the call settles, one after the
  other, the promise of \<^verbatim>\<open>_initialize\<close>, the promise of \<^verbatim>\<open>catch\<close> and the returned promise,
  with the outcome computed above. These steps are microtasks: they run when the task
  that made the call has run to its end, and before any other task. (The handler of
  \<^verbatim>\<open>catch\<close> would log in one of them; \<open>init\<close> never takes that branch.)

  A page is the world, the promises returned by the calls made so far, each pending or
  settled, and the settlements waiting in the microtask queue. A returned promise is
  named by the position of its call in \<open>returned\<close>.
\<close>

datatype 'a promise_state = Pending | Settled "'a promise"

record 'n page =
  world_of :: "'n world"
  returned :: "nat promise_state list"
  microtask_queue :: "(nat \<times> nat promise) list"

definition initial_page :: "'n page" where
  "initial_page = \<lparr>world_of = initial_world, returned = [], microtask_queue = []\<rparr>"

text \<open>
  A call of an \<^verbatim>\<open>async\<close> function whose synchronous part is \<open>body\<close>: the world changes as
  \<open>body\<close> says, the caller gets a new pending promise, and its settlement is queued.
\<close>

definition async_call ::
  "('n world \<Rightarrow> nat promise \<times> 'n world) \<Rightarrow> 'n page \<Rightarrow> nat \<times> 'n page" where
  "async_call body pg =
     (case body (world_of pg) of
        (outcome, w1) \<Rightarrow>
          (length (returned pg),
           pg\<lparr>world_of := w1,
              returned := returned pg @ [Pending],
              microtask_queue := microtask_queue pg @ [(length (returned pg), outcome)]\<rparr>))"

definition call_init ::
  "env \<Rightarrow> 'n::{zero,numeral,inverse} \<Rightarrow> 'n \<Rightarrow> string list \<Rightarrow> string list \<Rightarrow> string \<Rightarrow> bool
     \<Rightarrow> 'n page \<Rightarrow> nat \<times> 'n page" where
  "call_init E width' height' markerUrls names configUrl' stats =
     async_call (init E width' height' markerUrls names configUrl' stats)"

definition call_initWithEntities ::
  "env \<Rightarrow> 'n::{zero,numeral,inverse} \<Rightarrow> 'n \<Rightarrow> Entity list \<Rightarrow> string \<Rightarrow> bool
     \<Rightarrow> 'n page \<Rightarrow> nat \<times> 'n page" where
  "call_initWithEntities E width' height' entities' configUrl' stats =
     async_call (initWithEntities E width' height' entities' configUrl' stats)"

text \<open>
  The microtask checkpoint at the end of a task: every queued settlement runs, and the
  world stays as it is. Code that runs in the task of a call after the call has returned
  (\<open>in_task\<close>) runs before the checkpoint; a later task (\<open>next_task\<close>) runs after it. The
  listeners of an event run inside the task that dispatches the event.
\<close>

definition settle :: "nat \<times> nat promise \<Rightarrow> nat promise_state list \<Rightarrow> nat promise_state list" where
  "settle job ps = ps[fst job := Settled (snd job)]"

definition run_microtasks :: "'n page \<Rightarrow> 'n page" where
  "run_microtasks pg =
     pg\<lparr>returned := fold settle (microtask_queue pg) (returned pg), microtask_queue := []\<rparr>"

definition in_task :: "('n world \<Rightarrow> 'n world) \<Rightarrow> 'n page \<Rightarrow> 'n page" where
  "in_task code pg = pg\<lparr>world_of := code (world_of pg)\<rparr>"

definition next_task :: "('n world \<Rightarrow> 'n world) \<Rightarrow> 'n page \<Rightarrow> 'n page" where
  "next_task code pg = in_task code (run_microtasks pg)"

section \<open>Vocabulary of the properties\<close>

text \<open>
  The entity list passed to the most recent call of \<^verbatim>\<open>initWithEntities\<close> in a run, \<open>e\<close>
  when there is none.
\<close>

fun entities_passed :: "'n action list \<Rightarrow> Entity list option \<Rightarrow> Entity list option" where
  "entities_passed [] e = e"
| "entities_passed (CallInitWithEntities wd ht es cfg st # acts) e = entities_passed acts (Some es)"
| "entities_passed (act # acts) e = entities_passed acts e"

text \<open>The sessions whose construction a trace records, in the order of construction.\<close>

fun constructed :: "'n call \<Rightarrow> 'n NFTWorker list" where
  "constructed (NewNFTWorker s) = [s]"
| "constructed _ = []"

definition sessions_constructed :: "'n call list \<Rightarrow> 'n NFTWorker list" where
  "sessions_constructed tr = concat (map constructed tr)"

text \<open>
  The sessions that a trace records a call of \<^verbatim>\<open>initialize\<close> on, and a call of \<^verbatim>\<open>process\<close>
  on, in the order of the calls.
\<close>

fun initialized :: "'n call \<Rightarrow> 'n NFTWorker list" where
  "initialized (WorkerInitialize s para frame onMain onWorker) = [s]"
| "initialized _ = []"

definition sessions_initialized :: "'n call list \<Rightarrow> 'n NFTWorker list" where
  "sessions_initialized tr = concat (map initialized tr)"

fun processed :: "'n call \<Rightarrow> 'n NFTWorker list" where
  "processed (WorkerProcess s frame) = [s]"
| "processed _ = []"

definition sessions_processed :: "'n call list \<Rightarrow> 'n NFTWorker list" where
  "sessions_processed tr = concat (map processed tr)"

text \<open>
  A world is well-formed when the \<^verbatim>\<open>this\<close> of every registered listener is an instance
  and every awaited Camera View has been constructed. The initial world is well-formed and
  every action keeps a world so (\<open>wf_world_reachable\<close>).
\<close>

definition wf_world :: "'n world \<Rightarrow> bool" where
  "wf_world w \<longleftrightarrow>
     list_all (\<lambda>l. l_this l < length (instances w)) (getConfig_listeners w) \<and>
     list_all (\<lambda>p. fst p < cameras_created w) (awaiting_camera w)"

text \<open>
  The actions that dispatch the config-ready event, and those that settle the promise of
  Camera View \<open>cam\<close>.
\<close>

fun dispatches_config_ready :: "'n action \<Rightarrow> bool" where
  "dispatches_config_ready (ConfigReady config) = True"
| "dispatches_config_ready _ = False"

fun settles :: "nat \<Rightarrow> 'n action \<Rightarrow> bool" where
  "settles cam (CameraSettled c outcome) = (c = cam)"
| "settles cam _ = False"

text \<open>
  A second property of every reachable world (\<open>wf_awaiting_reachable\<close>): the \<^verbatim>\<open>this\<close> of
  every suspended listener run is an instance.
\<close>

definition wf_awaiting :: "'n world \<Rightarrow> bool" where
  "wf_awaiting w \<longleftrightarrow>
     list_all (\<lambda>p. l_this (snd p) < length (instances w)) (awaiting_camera w)"

text \<open>
  The fields of an instance that the listener writes (\<^verbatim>\<open>appData\<close>, \<^verbatim>\<open>cameraView\<close>,
  \<^verbatim>\<open>controllers\<close>) or hands to the sessions it constructs (\<^verbatim>\<open>width\<close>, \<^verbatim>\<open>height\<close>, \<^verbatim>\<open>uuid\<close>).
\<close>

definition session_fields ::
  "'n ARnft \<Rightarrow> ConfigData option \<times> nat option \<times> 'n NFTWorker list option \<times> 'n \<times> 'n \<times> string" where
  "session_fields this =
     (appData this, cameraView this, controllers this, width this, height this, uuid this)"

text \<open>
  Two worlds with as many instances, the same listeners, the same suspended runs and the
  same number of Camera Views.
\<close>

definition same_frame :: "'n world \<Rightarrow> 'n world \<Rightarrow> bool" where
  "same_frame w w' \<longleftrightarrow>
     length (instances w') = length (instances w) \<and>
     getConfig_listeners w' = getConfig_listeners w \<and>
     awaiting_camera w' = awaiting_camera w \<and>
     cameras_created w' = cameras_created w"

text \<open>
  Closed forms of what the steps do, used to state the lemmas: the instance the
  constructor leaves, the calls of \<^verbatim>\<open>init\<close>, the calls of the listener up to its
  \<^verbatim>\<open>await\<close>, the session the \<^verbatim>\<open>forEach\<close> callback constructs, the calls of one run of that
  callback, and the sessions and calls of a whole \<^verbatim>\<open>forEach\<close>.
\<close>

definition constructed_instance ::
  "env \<Rightarrow> 'n::{zero,numeral,inverse} \<Rightarrow> 'n \<Rightarrow> string \<Rightarrow> nat \<Rightarrow> 'n ARnft" where
  "constructed_instance E wd ht cfg k =
     \<lparr>cameraView = None, appData = None, width = wd, height = ht, configUrl = cfg,
      listeners = None, this_markerUrl = None, camData = None, controllers = None,
      target = Window, uuid = uuidv4 E k, version = package_version E,
      fps = 1000 / 15, lastTime = 0\<rparr>"

definition init_calls :: "env \<Rightarrow> string \<Rightarrow> listener \<Rightarrow> 'n call list" where
  "init_calls E cfg l =
     [ConsoleLog [''ARnft '', package_version E], DispatchEvent ''initARnft'',
      ConsoleLog init_start_message, GetConfig cfg, AddEventListener ''getConfig'' l]"

definition prefix_calls :: "ConfigData \<Rightarrow> bool \<Rightarrow> nat \<Rightarrow> 'n call list" where
  "prefix_calls config stats cam =
     [CreateContainer config, CreateLoading config, CreateStats (stats_createHtml config) config]
     @ (if stats
        then [NewStats StatsMain, ShowPanel StatsMain 0, AppendChild ''stats1'' StatsMain,
              NewStats StatsWorker, ShowPanel StatsWorker 0, AppendChild ''stats2'' StatsWorker]
        else [])
     @ [NewCameraViewRenderer cam ''video'', CameraInitialize cam (videoSettings config)]"

definition new_session :: "'n ARnft \<Rightarrow> nat \<Rightarrow> string \<Rightarrow> string option \<Rightarrow> 'n NFTWorker" where
  "new_session this k m nm =
     \<lparr>worker_id = k, worker_markerUrl = m, worker_width = width this,
      worker_height = height this, worker_uuid = uuid this, worker_name = nm\<rparr>"

definition session_calls ::
  "'n NFTWorker \<Rightarrow> nat \<Rightarrow> jsval \<Rightarrow> jsval \<Rightarrow> bool \<Rightarrow> update_closure \<Rightarrow> 'n call list" where
  "session_calls worker cam para frame stats u =
     [NewNFTWorker worker,
      CameraGetImage cam,
      WorkerInitialize worker para frame (UpdateIfStats stats StatsMain)
        (UpdateIfStats stats StatsWorker),
      CameraGetImage cam, WorkerProcess worker frame,
      CameraGetImage cam, WorkerProcess worker frame, RequestAnimationFrame u]"

fun sessions_from ::
  "'n ARnft \<Rightarrow> string list \<Rightarrow> nat \<Rightarrow> nat \<Rightarrow> string list \<Rightarrow> 'n NFTWorker list" where
  "sessions_from this nms k i [] = []"
| "sessions_from this nms k i (m # ms) =
     new_session this k m (nth_opt nms i) # sessions_from this nms (Suc k) (Suc i) ms"

fun forEach_calls ::
  "nat \<Rightarrow> nat \<Rightarrow> jsval \<Rightarrow> jsval \<Rightarrow> bool \<Rightarrow> nat \<Rightarrow> 'n NFTWorker list \<Rightarrow> 'n call list" where
  "forEach_calls a cam para frame stats i [] = []"
| "forEach_calls a cam para frame stats i (s # ss) =
     session_calls s cam para frame stats \<lparr>u_this = a, u_index = i\<rparr>
       @ forEach_calls a cam para frame stats (Suc i) ss"

text \<open>An environment and a configuration for the concrete runs.\<close>

definition example_env :: env where
  "example_env = \<lparr>package_version = ''1.0.0'', uuidv4 = (\<lambda>k. ''uuid-'' @ replicate k CHR ''i'')\<rparr>"

definition example_config :: ConfigData where
  "example_config =
     \<lparr>videoSettings = JObject 0, cameraPara = JString ''camera_para.dat'',
      stats_createHtml = False\<rparr>"

text \<open>
  A page on which one orchestrator has completed its start-up: the call, the config-ready
  event of its request, and the resolution of its Camera View initialization.
\<close>

definition one_started :: "real world" where
  "one_started =
     run example_env
       [CallInit 320 240 [''markerZ''] [''Zed''] ''other.json'' False,
        ConfigReady example_config,
        CameraSettled 0 (Fulfilled ())]
       initial_world"

text \<open>
  Two orchestrators on one page. Each call requests its configuration, and each request
  is answered by one config-ready event on the window, where both listeners are
  registered; here both events arrive before any Camera View initialization resolves.
  The first event constructs Camera Views 0 and 1, the second Camera Views 2 and 3.
\<close>

definition two_orchestrators_run :: "real action list" where
  "two_orchestrators_run =
     [CallInit 640 480 [''markerA''] [''Box''] ''config.json'' False,
      CallInit 320 240 [''markerZ''] [''Zed''] ''other.json'' False,
      ConfigReady example_config,
      ConfigReady example_config,
      CameraSettled 0 (Fulfilled ()),
      CameraSettled 1 (Fulfilled ()),
      CameraSettled 2 (Fulfilled ()),
      CameraSettled 3 (Fulfilled ())]"

text \<open>
  The session with identity \<open>k\<close> as the first orchestrator of that run constructs it, and
  as the second one does.
\<close>

definition session_A :: "nat \<Rightarrow> real NFTWorker" where
  "session_A k =
     \<lparr>worker_id = k, worker_markerUrl = ''markerA'', worker_width = 640, worker_height = 480,
      worker_uuid = ''uuid-'', worker_name = Some ''Box''\<rparr>"

definition session_Z :: "nat \<Rightarrow> real NFTWorker" where
  "session_Z k =
     \<lparr>worker_id = k, worker_markerUrl = ''markerZ'', worker_width = 320, worker_height = 240,
      worker_uuid = ''uuid-i'', worker_name = Some ''Zed''\<rparr>"

text \<open>
  A page on which the config-ready event is dispatched in the task of the call of
  \<^verbatim>\<open>init\<close>, after the call has returned and before the microtask checkpoint.
\<close>

definition synchronous_event_page :: "real page" where
  "synchronous_event_page =
     in_task (dispatch_getConfig example_config)
       (snd (call_init example_env 640 480 [''markerA''] [''Box''] ''config.json'' False
               initial_page))"

section \<open>Lemmas about the steps\<close>

lemma nth_opt_append_length [simp]: "nth_opt (cs @ [x]) (length cs) = Some x"
  by (simp add: nth_opt_def)

lemma marker_body_ok:
  assumes "this_at (l_this l) w = Some this" "controllers this = Some cs"
    "appData this = Some config" "cameraView this = Some cam"
  shows "marker_body l m (length cs) w =
    (Normal (),
     w\<lparr>workers_created := Suc (workers_created w),
       instances := (instances w)[l_this l := this\<lparr>controllers := Some (cs @
          [new_session this (workers_created w) m (nth_opt (l_names l) (length cs))])\<rparr>],
       trace := trace w @ session_calls (new_session this (workers_created w) m (nth_opt (l_names l) (length cs)))
                   cam (cameraPara config) (video_frame w) (l_stats l)
                   \<lparr>u_this = l_this l, u_index = length cs\<rparr>,
       animation_callbacks := animation_callbacks w @ [\<lparr>u_this = l_this l, u_index = length cs\<rparr>]\<rparr>)"
  using assms
  by (simp add: marker_body_def Let_def this_at_def calls_def set_this_def update_def
           session_calls_def new_session_def split: if_splits)

lemma new_session_controllers [simp]:
  "new_session (this\<lparr>controllers := c\<rparr>) k m n = new_session this k m n"
  by (simp add: new_session_def)

lemma sessions_from_controllers [simp]:
  "sessions_from (this\<lparr>controllers := c\<rparr>) nms k i ms = sessions_from this nms k i ms"
  by (induction ms arbitrary: k i) simp_all

lemma length_sessions_from [simp]: "length (sessions_from this nms k i ms) = length ms"
  by (induction ms arbitrary: k i) simp_all

lemma upt_shift: "[i ..< Suc (i + n)] = i # [Suc i ..< Suc (i + n)]"
  by (rule upt_conv_Cons) simp

lemma forEach_markers_ok:
  assumes "this_at (l_this l) w = Some this" "controllers this = Some cs"
    "appData this = Some config" "cameraView this = Some cam"
  shows "forEach_markers l ms (length cs) w =
    (Normal (),
     w\<lparr>workers_created := workers_created w + length ms,
       instances := (instances w)[l_this l := this\<lparr>controllers := Some (cs @
          sessions_from this (l_names l) (workers_created w) (length cs) ms)\<rparr>],
       trace := trace w @ forEach_calls (l_this l) cam (cameraPara config) (video_frame w) (l_stats l)
                   (length cs) (sessions_from this (l_names l) (workers_created w) (length cs) ms),
       animation_callbacks := animation_callbacks w @
          map (\<lambda>j. \<lparr>u_this = l_this l, u_index = j\<rparr>) [length cs ..< length cs + length ms]\<rparr>)"
  using assms
proof (induction ms arbitrary: w this cs)
  case Nil
  then have "(instances w)[l_this l := this\<lparr>controllers := Some cs\<rparr>] = instances w"
    by (auto simp: this_at_def list_update_same_conv split: if_splits)
  then show ?case by simp
next
  case (Cons m ms)
  let ?s = "new_session this (workers_created w) m (nth_opt (l_names l) (length cs))"
  let ?inst' = "this\<lparr>controllers := Some (cs @ [?s])\<rparr>"
  let ?w' = "w\<lparr>workers_created := Suc (workers_created w),
       instances := (instances w)[l_this l := ?inst'],
       trace := trace w @ session_calls ?s cam (cameraPara config) (video_frame w) (l_stats l)
                   \<lparr>u_this = l_this l, u_index = length cs\<rparr>,
       animation_callbacks := animation_callbacks w @ [\<lparr>u_this = l_this l, u_index = length cs\<rparr>]\<rparr>"
  have step: "marker_body l m (length cs) w = (Normal (), ?w')"
    using Cons.prems by (rule marker_body_ok)
  have a: "l_this l < length (instances w)"
    using Cons.prems(1) by (simp add: this_at_def split: if_splits)
  have t': "this_at (l_this l) ?w' = Some ?inst'"
    using a by (simp add: this_at_def)
  have rest: "forEach_markers l ms (length (cs @ [?s])) ?w' = (Normal (),
     ?w'\<lparr>workers_created := workers_created ?w' + length ms,
       instances := (instances ?w')[l_this l := ?inst'\<lparr>controllers := Some ((cs @ [?s]) @
          sessions_from ?inst' (l_names l) (workers_created ?w') (length (cs @ [?s])) ms)\<rparr>],
       trace := trace ?w' @ forEach_calls (l_this l) cam (cameraPara config) (video_frame ?w') (l_stats l)
                   (length (cs @ [?s])) (sessions_from ?inst' (l_names l) (workers_created ?w') (length (cs @ [?s])) ms),
       animation_callbacks := animation_callbacks ?w' @
          map (\<lambda>j. \<lparr>u_this = l_this l, u_index = j\<rparr>) [length (cs @ [?s]) ..< length (cs @ [?s]) + length ms]\<rparr>)"
    using Cons.prems by (intro Cons.IH [OF t']) simp_all
  show ?case
    using step rest by (simp add: upt_shift del: upt_Suc)
qed

lemma sessions_constructed_Nil [simp]: "sessions_constructed [] = []"
  by (simp add: sessions_constructed_def)

lemma sessions_constructed_append [simp]:
  "sessions_constructed (xs @ ys) = sessions_constructed xs @ sessions_constructed ys"
  by (simp add: sessions_constructed_def)

lemma sessions_constructed_prefix_calls [simp]:
  "sessions_constructed (prefix_calls config stats cam) = []"
  by (auto simp: sessions_constructed_def prefix_calls_def)

lemma on_getConfig_eq:
  "on_getConfig config l w =
    w\<lparr>cameras_created := Suc (cameras_created w),
      instances := (instances w)[l_this l := (instances w ! l_this l)
          \<lparr>appData := Some config, controllers := Some [], cameraView := Some (cameras_created w)\<rparr>],
      trace := trace w @ prefix_calls config (l_stats l) (cameras_created w),
      awaiting_camera := awaiting_camera w @ [(cameras_created w, l)]\<rparr>"
  by (cases "l_this l < length (instances w)")
     (simp_all add: on_getConfig_def Let_def set_this_def calls_def prefix_calls_def
        list_update_beyond not_less)

lemma on_getConfig_fields [simp]:
  "length (instances (on_getConfig config l w)) = length (instances w)"
  "cameras_created (on_getConfig config l w) = Suc (cameras_created w)"
  "entities (on_getConfig config l w) = entities w"
  "getConfig_listeners (on_getConfig config l w) = getConfig_listeners w"
  "animation_callbacks (on_getConfig config l w) = animation_callbacks w"
  "workers_created (on_getConfig config l w) = workers_created w"
  "uuid_calls (on_getConfig config l w) = uuid_calls w"
  "video_frame (on_getConfig config l w) = video_frame w"
  "awaiting_camera (on_getConfig config l w) = awaiting_camera w @ [(cameras_created w, l)]"
  "trace (on_getConfig config l w) = trace w @ prefix_calls config (l_stats l) (cameras_created w)"
  "l_this l \<noteq> a \<Longrightarrow> instances (on_getConfig config l w) ! a = instances w ! a"
  by (simp_all add: on_getConfig_eq)

lemma fold_on_getConfig_fields [simp]:
  "length (instances (fold (on_getConfig config) L w)) = length (instances w)"
  "cameras_created (fold (on_getConfig config) L w) = cameras_created w + length L"
  "entities (fold (on_getConfig config) L w) = entities w"
  "getConfig_listeners (fold (on_getConfig config) L w) = getConfig_listeners w"
  "animation_callbacks (fold (on_getConfig config) L w) = animation_callbacks w"
  "workers_created (fold (on_getConfig config) L w) = workers_created w"
  "uuid_calls (fold (on_getConfig config) L w) = uuid_calls w"
  "video_frame (fold (on_getConfig config) L w) = video_frame w"
  by (induction L arbitrary: w; simp)+

lemma fold_on_getConfig_other:
  "\<forall>l \<in> set L. l_this l \<noteq> a \<Longrightarrow>
     instances (fold (on_getConfig config) L w) ! a = instances w ! a"
  by (induction L arbitrary: w) simp_all

lemma fold_on_getConfig_awaiting:
  "\<exists>Z. awaiting_camera (fold (on_getConfig config) L w) = awaiting_camera w @ Z
        \<and> (\<forall>p \<in> set Z. fst p < cameras_created w + length L)"
proof (induction L arbitrary: w)
  case Nil
  then show ?case by simp
next
  case (Cons l L)
  from Cons.IH [of "on_getConfig config l w"] obtain Z where
    Z: "awaiting_camera (fold (on_getConfig config) L (on_getConfig config l w)) =
          awaiting_camera (on_getConfig config l w) @ Z"
       "\<forall>p \<in> set Z. fst p < cameras_created (on_getConfig config l w) + length L"
    by blast
  show ?case
    using Z by (intro exI [of _ "(cameras_created w, l) # Z"]) simp
qed

lemma fold_on_getConfig_trace:
  "\<exists>T. trace (fold (on_getConfig config) L w) = trace w @ T \<and> sessions_constructed T = []"
proof (induction L arbitrary: w)
  case Nil
  then show ?case by simp
next
  case (Cons l L)
  from Cons.IH [of "on_getConfig config l w"] obtain T where
    T: "trace (fold (on_getConfig config) L (on_getConfig config l w)) =
          trace (on_getConfig config l w) @ T" "sessions_constructed T = []"
    by blast
  show ?case
    using T
    by (intro exI [of _ "prefix_calls config (l_stats l) (cameras_created w) @ T"]) simp
qed

lemma new_ARnft_eq:
  "new_ARnft E wd ht cfg w =
     (Normal (length (instances w)),
      w\<lparr>uuid_calls := Suc (uuid_calls w),
        instances := instances w @ [constructed_instance E wd ht cfg (uuid_calls w)],
        trace := trace w @ [ConsoleLog [''ARnft '', package_version E]]\<rparr>)"
  by (simp add: new_ARnft_def setFPS_def calls_def Let_def constructed_instance_def)

lemma init_eq:
  "init E wd ht urls nms cfg st w =
     (Fulfilled (length (instances w)),
      w\<lparr>uuid_calls := Suc (uuid_calls w),
        instances := instances w @ [constructed_instance E wd ht cfg (uuid_calls w)],
        trace := trace w @ init_calls E cfg
                   \<lparr>l_this = length (instances w), l_markerUrls = urls, l_names = nms, l_stats = st\<rparr>,
        getConfig_listeners := getConfig_listeners w @
          [\<lparr>l_this = length (instances w), l_markerUrls = urls, l_names = nms, l_stats = st\<rparr>]\<rparr>)"
  by (simp add: init_def new_ARnft_eq initialize_def this_at_def calls_def Let_def init_calls_def
        constructed_instance_def)

lemma initWithEntities_as_init:
  "initWithEntities E wd ht es cfg st w =
     init E wd ht (map markerUrl es) (map name es) cfg st (w\<lparr>entities := Some es\<rparr>)"
  by (simp add: init_eq initWithEntities_def new_ARnft_eq initialize_def this_at_def calls_def
        Let_def init_calls_def constructed_instance_def)

lemma sessions_constructed_init_calls [simp]: "sessions_constructed (init_calls E cfg l) = []"
  by (simp add: sessions_constructed_def init_calls_def)

lemma filter_older:
  assumes "\<forall>p \<in> set xs. fst p < (c::nat)"
  shows "filter (\<lambda>p. fst p \<noteq> c) xs = xs" and "filter (\<lambda>p. fst p = c) xs = []"
  using assms by (induction xs) auto

lemma config_ready_run:
  fixes w :: "'n::{zero,numeral,inverse} world"
    and E :: env and wd ht :: 'n and urls nms :: "string list" and cfg :: string and st :: bool
    and config :: ConfigData
  assumes wf: "wf_world w"
  defines "a \<equiv> length (instances w)"
    and "cam \<equiv> cameras_created w + length (getConfig_listeners w)"
    and "l \<equiv> \<lparr>l_this = length (instances w), l_markerUrls = urls, l_names = nms, l_stats = st\<rparr>"
    and "w2 \<equiv> dispatch_getConfig config (snd (init E wd ht urls nms cfg st w))"
  shows "\<exists>wm. camera_settled cam outcome w2 = resume outcome l wm
           \<and> this_at a wm = Some ((constructed_instance E wd ht cfg (uuid_calls w))
                \<lparr>appData := Some config, controllers := Some [], cameraView := Some cam\<rparr>)
           \<and> trace wm = trace w2
           \<and> (\<exists>T. trace w2 = trace w @ T \<and> sessions_constructed T = [])
           \<and> workers_created wm = workers_created w
           \<and> video_frame wm = video_frame w
           \<and> animation_callbacks wm = animation_callbacks w
           \<and> entities wm = entities w
           \<and> length (instances wm) = Suc (length (instances w))"
proof -
  let ?L = "getConfig_listeners w"
  let ?w1 = "snd (init E wd ht urls nms cfg st w)"
  let ?f = "on_getConfig config :: listener \<Rightarrow> 'n world \<Rightarrow> 'n world"
  let ?wL = "fold ?f ?L ?w1"
  have old: "\<forall>l' \<in> set ?L. l_this l' \<noteq> a"
    using wf by (auto simp: wf_world_def list_all_iff a_def)
  have w2: "w2 = on_getConfig config l ?wL"
    by (simp add: w2_def dispatch_getConfig_def init_eq l_def)
  have inst: "instances ?wL ! a = constructed_instance E wd ht cfg (uuid_calls w)"
    using fold_on_getConfig_other [OF old, of config ?w1] by (simp add: init_eq a_def)
  have len: "length (instances ?wL) = Suc a" by (simp add: init_eq a_def)
  have cams: "cameras_created ?wL = cam" by (simp add: init_eq cam_def)
  obtain Z where Z: "awaiting_camera ?wL = awaiting_camera w @ Z"
      "\<forall>p \<in> set Z. fst p < cam"
    using fold_on_getConfig_awaiting [of config ?L ?w1] by (auto simp: init_eq cam_def)
  obtain T where T: "trace ?wL = trace w @ init_calls E cfg l @ T" "sessions_constructed T = []"
    using fold_on_getConfig_trace [of config ?L ?w1] by (auto simp: init_eq l_def)
  have A: "\<forall>p \<in> set (awaiting_camera w). fst p < cam"
    using wf by (auto simp: wf_world_def list_all_iff cam_def)
  let ?wm = "w2\<lparr>awaiting_camera := awaiting_camera w @ Z\<rparr>"
  have aw2: "awaiting_camera w2 = awaiting_camera w @ Z @ [(cam, l)]"
    using cams by (simp add: w2 Z)
  have f1: "filter (\<lambda>p. fst p = cam) (awaiting_camera w2) = [(cam, l)]"
    using A Z(2) by (simp add: aw2 filter_older)
  have f2: "filter (\<lambda>p. fst p \<noteq> cam) (awaiting_camera w2) = awaiting_camera w @ Z"
    using A Z(2) by (simp add: aw2 filter_older)
  have settle: "camera_settled cam outcome w2 = resume outcome l ?wm"
    by (simp add: camera_settled_def f1 f2)
  have inst_wm: "this_at a ?wm = Some ((constructed_instance E wd ht cfg (uuid_calls w))
                \<lparr>appData := Some config, controllers := Some [], cameraView := Some cam\<rparr>)"
    using inst len cams by (simp add: this_at_def w2 on_getConfig_eq l_def a_def)
  have tr: "trace w2 = trace w @ (init_calls E cfg l @ T @ prefix_calls config st cam)"
    using cams by (simp add: w2 T l_def)
  have "sessions_constructed (init_calls E cfg l @ T @ prefix_calls config st cam) = []"
    using T(2) by simp
  with tr have trE: "\<exists>T. trace w2 = trace w @ T \<and> sessions_constructed T = []" by blast
  have rest: "workers_created ?wm = workers_created w" "video_frame ?wm = video_frame w"
     "animation_callbacks ?wm = animation_callbacks w" "entities ?wm = entities w"
     "length (instances ?wm) = Suc (length (instances w))"
    using len by (simp_all add: w2 init_eq a_def)
  show ?thesis
    using settle inst_wm trE rest by (intro exI [of _ ?wm]) simp
qed

lemma sessions_from_map:
  "sessions_from this nms k i ms =
     map (\<lambda>j. new_session this (k + j) (ms ! j) (nth_opt nms (i + j))) [0..<length ms]"
  by (induction ms arbitrary: k i) (simp_all add: map_upt_Suc del: upt_Suc)

lemma forEach_calls_concat:
  "forEach_calls a cam para frame st i ss =
     concat (map (\<lambda>j. session_calls (ss ! j) cam para frame st \<lparr>u_this = a, u_index = i + j\<rparr>)
       [0..<length ss])"
  by (induction ss arbitrary: i) (simp_all add: map_upt_Suc del: upt_Suc)

lemma sessions_constructed_forEach_calls [simp]:
  "sessions_constructed (forEach_calls a cam para frame st i ss) = ss"
  by (induction ss arbitrary: i) (simp_all add: sessions_constructed_def session_calls_def)

lemma resume_fulfilled:
  assumes "this_at (l_this l) w = Some this" "controllers this = Some []"
    "appData this = Some config" "cameraView this = Some cam"
  shows "resume (Fulfilled u) l w =
     w\<lparr>workers_created := workers_created w + length (l_markerUrls l),
       instances := (instances w)[l_this l := this\<lparr>controllers := Some (
          sessions_from this (l_names l) (workers_created w) 0 (l_markerUrls l))\<rparr>],
       trace := trace w @ forEach_calls (l_this l) cam (cameraPara config) (video_frame w) (l_stats l)
                   0 (sessions_from this (l_names l) (workers_created w) 0 (l_markerUrls l)),
       animation_callbacks := animation_callbacks w @
          map (\<lambda>j. \<lparr>u_this = l_this l, u_index = j\<rparr>) [0 ..< length (l_markerUrls l)]\<rparr>"
  using forEach_markers_ok [OF assms, of "l_markerUrls l"] by (simp add: resume_def)

lemma resume_rejected:
  "resume (Rejected err) l w = w\<lparr>trace := trace w @ [ConsoleError err, UnhandledRejection (JBool False)]\<rparr>"
  by (simp add: resume_def calls_def)

lemma update_entities:
  "update u (w\<lparr>entities := e\<rparr>) = apsnd (\<lambda>w. w\<lparr>entities := e\<rparr>) (update u w)"
  by (simp add: update_def this_at_def calls_def Let_def split: option.splits)

lemma marker_body_entities:
  "marker_body l m i (w\<lparr>entities := e\<rparr>) = apsnd (\<lambda>w. w\<lparr>entities := e\<rparr>) (marker_body l m i w)"
  by (simp add: marker_body_def update_def this_at_def set_this_def calls_def Let_def
        split: option.splits)

lemma forEach_markers_entities:
  "forEach_markers l ms i (w\<lparr>entities := e\<rparr>) =
     apsnd (\<lambda>w. w\<lparr>entities := e\<rparr>) (forEach_markers l ms i w)"
proof (induction ms arbitrary: i w)
  case Nil
  then show ?case by simp
next
  case (Cons m ms)
  show ?case
  proof (cases "marker_body l m i w")
    case (Pair c w1)
    then show ?thesis
      by (cases c) (simp_all add: marker_body_entities Cons.IH)
  qed
qed

lemma resume_entities:
  "resume outcome l (w\<lparr>entities := e\<rparr>) = (resume outcome l w)\<lparr>entities := e\<rparr>"
proof (cases outcome)
  case (Fulfilled u)
  show ?thesis
  proof (cases "forEach_markers l (l_markerUrls l) 0 w")
    case (Pair c w1)
    then show ?thesis
      by (cases c) (simp_all add: resume_def Fulfilled forEach_markers_entities calls_def)
  qed
next
  case (Rejected err)
  then show ?thesis by (simp add: resume_def calls_def)
qed

lemma fold_entities:
  assumes "\<And>x w. f x (w\<lparr>entities := e\<rparr>) = (f x w)\<lparr>entities := e\<rparr>"
  shows "fold f xs (w\<lparr>entities := e\<rparr>) = (fold f xs w)\<lparr>entities := e\<rparr>"
  by (induction xs arbitrary: w) (simp_all add: assms)

lemma on_getConfig_entities:
  "on_getConfig config l (w\<lparr>entities := e\<rparr>) = (on_getConfig config l w)\<lparr>entities := e\<rparr>"
  by (simp add: on_getConfig_eq)

lemma dispatch_getConfig_entities:
  "dispatch_getConfig config (w\<lparr>entities := e\<rparr>) = (dispatch_getConfig config w)\<lparr>entities := e\<rparr>"
  by (simp add: dispatch_getConfig_def fold_entities on_getConfig_entities)

lemma entities_swap:
  "w\<lparr>entities := e, awaiting_camera := x\<rparr> = w\<lparr>awaiting_camera := x, entities := e\<rparr>"
  "w\<lparr>entities := e, animation_callbacks := y\<rparr> = w\<lparr>animation_callbacks := y, entities := e\<rparr>"
  by simp_all

lemma camera_settled_entities:
  "camera_settled cam outcome (w\<lparr>entities := e\<rparr>) = (camera_settled cam outcome w)\<lparr>entities := e\<rparr>"
  using fold_entities [of "resume outcome" e
      "map snd (filter (\<lambda>p. fst p = cam) (awaiting_camera w))"
      "w\<lparr>awaiting_camera := filter (\<lambda>p. fst p \<noteq> cam) (awaiting_camera w)\<rparr>"]
  by (simp add: camera_settled_def resume_entities entities_swap)

lemma run_callback_entities:
  "run_callback u (w\<lparr>entities := e\<rparr>) = (run_callback u w)\<lparr>entities := e\<rparr>"
proof (cases "update u w")
  case (Pair c w1)
  then show ?thesis
    by (cases c) (simp_all add: run_callback_def update_entities calls_def)
qed

lemma animation_frame_entities:
  "animation_frame (w\<lparr>entities := e\<rparr>) = (animation_frame w)\<lparr>entities := e\<rparr>"
  using fold_entities [of run_callback e "animation_callbacks w" "w\<lparr>animation_callbacks := []\<rparr>"]
  by (simp add: animation_frame_def run_callback_entities entities_swap)

lemma entities_preserved:
  assumes "\<And>e. f (w\<lparr>entities := e\<rparr>) = (f w)\<lparr>entities := e\<rparr>"
  shows "entities (f w) = entities w"
proof -
  have "entities (f (w\<lparr>entities := entities w\<rparr>)) = entities w"
    by (simp only: assms) simp
  then show ?thesis by simp
qed

lemma wf_world_entities [simp]: "wf_world (w\<lparr>entities := e\<rparr>) = wf_world w"
  by (simp add: wf_world_def)

lemma wf_initial_world [simp]: "wf_world initial_world"
  by (simp add: wf_world_def initial_world_def)

lemma this_at_trace [simp]: "this_at a (w\<lparr>trace := t\<rparr>) = this_at a w"
  by (simp add: this_at_def)

lemma config_ready_fulfilled:
  fixes w :: "'n::{zero,numeral,inverse} world"
    and E :: env and wd ht :: 'n and urls nms :: "string list" and cfg :: string and st :: bool
    and config :: ConfigData
  assumes wf: "wf_world w"
  defines "a \<equiv> length (instances w)"
    and "cam \<equiv> cameras_created w + length (getConfig_listeners w)"
    and "sessions \<equiv> map (\<lambda>i. \<lparr>worker_id = workers_created w + i, worker_markerUrl = urls ! i,
                 worker_width = wd, worker_height = ht, worker_uuid = uuidv4 E (uuid_calls w),
                 worker_name = nth_opt nms i\<rparr>) [0..<length urls]"
    and "w2 \<equiv> dispatch_getConfig config (snd (init E wd ht urls nms cfg st w))"
  shows "this_at a (camera_settled cam (Fulfilled ()) w2) =
           Some ((constructed_instance E wd ht cfg (uuid_calls w))
                \<lparr>appData := Some config, cameraView := Some cam, controllers := Some sessions\<rparr>)"
    and "trace (camera_settled cam (Fulfilled ()) w2) =
           trace w2 @ forEach_calls a cam (cameraPara config) (video_frame w) st 0 sessions"
    and "sessions_constructed (trace w2) = sessions_constructed (trace w)"
    and "animation_callbacks (camera_settled cam (Fulfilled ()) w2) =
           animation_callbacks w @ map (\<lambda>j. \<lparr>u_this = a, u_index = j\<rparr>) [0 ..< length urls]"
    and "workers_created (camera_settled cam (Fulfilled ()) w2) = workers_created w + length urls"
    and "video_frame (camera_settled cam (Fulfilled ()) w2) = video_frame w"
proof -
  let ?l = "\<lparr>l_this = length (instances w), l_markerUrls = urls, l_names = nms, l_stats = st\<rparr>"
  let ?inst = "(constructed_instance E wd ht cfg (uuid_calls w))
                \<lparr>appData := Some config, controllers := Some [], cameraView := Some cam\<rparr>"
  from config_ready_run [OF wf, of "Fulfilled ()" config E wd ht urls nms cfg st]
  obtain wm T where wm: "camera_settled cam (Fulfilled ()) w2 = resume (Fulfilled ()) ?l wm"
    "this_at a wm = Some ?inst"
    "trace wm = trace w2" "trace w2 = trace w @ T" "sessions_constructed T = []"
    "workers_created wm = workers_created w"
    "video_frame wm = video_frame w"
    "animation_callbacks wm = animation_callbacks w"
    "entities wm = entities w"
    "length (instances wm) = Suc a"
    unfolding w2_def cam_def a_def by auto
  have eq: "sessions_from ?inst nms (workers_created w) 0 urls = sessions"
    by (simp add: sessions_from_map sessions_def new_session_def constructed_instance_def)
  have r: "camera_settled cam (Fulfilled ()) w2 =
          wm\<lparr>workers_created := workers_created w + length urls,
             instances := (instances wm)[a := (constructed_instance E wd ht cfg (uuid_calls w))
                \<lparr>appData := Some config, cameraView := Some cam, controllers := Some sessions\<rparr>],
             trace := trace w2 @ forEach_calls a cam (cameraPara config) (video_frame w) st 0 sessions,
             animation_callbacks := animation_callbacks w @
                map (\<lambda>j. \<lparr>u_this = a, u_index = j\<rparr>) [0 ..< length urls]\<rparr>"
    using resume_fulfilled [of ?l wm ?inst config cam "()"] wm(2) eq
    by (simp add: wm(1) wm(3) wm(6) wm(7) wm(8) a_def)
  show "this_at a (camera_settled cam (Fulfilled ()) w2) =
           Some ((constructed_instance E wd ht cfg (uuid_calls w))
                \<lparr>appData := Some config, cameraView := Some cam, controllers := Some sessions\<rparr>)"
    using wm(10) by (simp add: r this_at_def)
  show "trace (camera_settled cam (Fulfilled ()) w2) =
           trace w2 @ forEach_calls a cam (cameraPara config) (video_frame w) st 0 sessions"
    by (simp add: r)
  show "sessions_constructed (trace w2) = sessions_constructed (trace w)"
    using wm(4,5) by simp
  show "animation_callbacks (camera_settled cam (Fulfilled ()) w2) =
           animation_callbacks w @ map (\<lambda>j. \<lparr>u_this = a, u_index = j\<rparr>) [0 ..< length urls]"
    by (simp add: r)
  show "workers_created (camera_settled cam (Fulfilled ()) w2) = workers_created w + length urls"
    by (simp add: r)
  show "video_frame (camera_settled cam (Fulfilled ()) w2) = video_frame w"
    using wm(7) by (simp add: r)
qed

lemma config_ready_rejected:
  fixes w :: "'n::{zero,numeral,inverse} world"
    and E :: env and wd ht :: 'n and urls nms :: "string list" and cfg :: string and st :: bool
    and config :: ConfigData
  assumes wf: "wf_world w"
  defines "a \<equiv> length (instances w)"
    and "cam \<equiv> cameras_created w + length (getConfig_listeners w)"
    and "w2 \<equiv> dispatch_getConfig config (snd (init E wd ht urls nms cfg st w))"
  shows "trace (camera_settled cam (Rejected err) w2) =
           trace w2 @ [ConsoleError err, UnhandledRejection (JBool False)]"
    and "sessions_constructed (trace (camera_settled cam (Rejected err) w2)) =
           sessions_constructed (trace w)"
    and "workers_created (camera_settled cam (Rejected err) w2) = workers_created w"
    and "animation_callbacks (camera_settled cam (Rejected err) w2) = animation_callbacks w"
    and "this_at a (camera_settled cam (Rejected err) w2) =
           Some ((constructed_instance E wd ht cfg (uuid_calls w))
                \<lparr>appData := Some config, controllers := Some [], cameraView := Some cam\<rparr>)"
proof -
  let ?l = "\<lparr>l_this = length (instances w), l_markerUrls = urls, l_names = nms, l_stats = st\<rparr>"
  from config_ready_run [OF wf, of "Rejected err" config E wd ht urls nms cfg st]
  obtain wm T where wm: "camera_settled cam (Rejected err) w2 = resume (Rejected err) ?l wm"
    "this_at a wm = Some ((constructed_instance E wd ht cfg (uuid_calls w))
                \<lparr>appData := Some config, controllers := Some [], cameraView := Some cam\<rparr>)"
    "trace wm = trace w2" "trace w2 = trace w @ T" "sessions_constructed T = []"
    "workers_created wm = workers_created w"
    "animation_callbacks wm = animation_callbacks w"
    unfolding w2_def cam_def a_def by auto
  show "trace (camera_settled cam (Rejected err) w2) =
           trace w2 @ [ConsoleError err, UnhandledRejection (JBool False)]"
    using wm(3) by (simp add: wm(1) resume_rejected)
  show "sessions_constructed (trace (camera_settled cam (Rejected err) w2)) =
           sessions_constructed (trace w)"
    using wm(3,4,5) by (simp add: wm(1) resume_rejected) (simp add: sessions_constructed_def)
  show "workers_created (camera_settled cam (Rejected err) w2) = workers_created w"
    using wm(6) by (simp add: wm(1) resume_rejected)
  show "animation_callbacks (camera_settled cam (Rejected err) w2) = animation_callbacks w"
    using wm(7) by (simp add: wm(1) resume_rejected)
  show "this_at a (camera_settled cam (Rejected err) w2) =
           Some ((constructed_instance E wd ht cfg (uuid_calls w))
                \<lparr>appData := Some config, controllers := Some [], cameraView := Some cam\<rparr>)"
    using wm(2) by (simp add: wm(1) resume_rejected)
qed

subsection \<open>Every reachable world is well-formed\<close>

lemma same_frame_refl [simp]: "same_frame w w"
  by (simp add: same_frame_def)

lemma same_frame_trans: "same_frame w w1 \<Longrightarrow> same_frame w1 w2 \<Longrightarrow> same_frame w w2"
  by (simp add: same_frame_def)

lemma same_frame_calls [simp]: "same_frame w (calls cs w)"
  by (simp add: same_frame_def calls_def)

lemma same_frame_wf: "same_frame w w' \<Longrightarrow> wf_world w \<Longrightarrow> wf_world w'"
  by (simp add: same_frame_def wf_world_def)

lemma same_frame_update: "same_frame w (snd (update u w))"
  by (simp add: update_def same_frame_def calls_def Let_def split: option.splits)

lemma same_frame_marker_body: "same_frame w (snd (marker_body l m i w))"
  by (simp add: marker_body_def update_def same_frame_def calls_def set_this_def this_at_def
        Let_def split: option.splits)

lemma same_frame_forEach_markers: "same_frame w (snd (forEach_markers l ms i w))"
proof (induction ms arbitrary: i w)
  case Nil
  then show ?case by simp
next
  case (Cons m ms)
  show ?case
  proof (cases "marker_body l m i w")
    case (Pair c w1)
    have 1: "same_frame w w1" using same_frame_marker_body [of w l m i] Pair by simp
    show ?thesis
    proof (cases c)
      case (Normal u)
      then show ?thesis
        using Pair same_frame_trans [OF 1 Cons.IH [where i = "Suc i" and w = w1]] by simp
    next
      case (Throw e)
      then show ?thesis using Pair 1 by simp
    qed
  qed
qed

lemma same_frame_resume: "same_frame w (resume outcome l w)"
proof (cases outcome)
  case (Fulfilled u)
  show ?thesis
  proof (cases "forEach_markers l (l_markerUrls l) 0 w")
    case (Pair c w1)
    have 1: "same_frame w w1"
      using same_frame_forEach_markers [of w l "l_markerUrls l" 0] Pair by simp
    have 2: "same_frame w1 (calls cs w1)" for cs by simp
    show ?thesis
      using Pair 1 same_frame_trans [OF 1 2]
      by (cases c) (simp_all add: resume_def Fulfilled)
  qed
next
  case (Rejected err)
  then show ?thesis by (simp add: resume_def)
qed

lemma same_frame_run_callback: "same_frame w (run_callback u w)"
proof (cases "update u w")
  case (Pair c w1)
  have 1: "same_frame w w1" using same_frame_update [of w u] Pair by simp
  have 2: "same_frame w1 (calls cs w1)" for cs by simp
  show ?thesis
    using Pair 1 same_frame_trans [OF 1 2]
    by (cases c) (simp_all add: run_callback_def)
qed

lemma same_frame_fold:
  assumes "\<And>x w. same_frame w (f x w)"
  shows "same_frame w (fold f xs w)"
proof (induction xs arbitrary: w)
  case Nil
  then show ?case by simp
next
  case (Cons x xs)
  show ?case
    using same_frame_trans [OF assms [of w x] Cons.IH [of "f x w"]] by simp
qed

lemma wf_world_init:
  fixes w :: "'n::{zero,numeral,inverse} world"
  shows "wf_world w \<Longrightarrow> wf_world (snd (init E wd ht urls nms cfg st w))"
  by (auto simp: wf_world_def init_eq list_all_iff)

lemma wf_world_dispatch: "wf_world w \<Longrightarrow> wf_world (dispatch_getConfig config w)"
  using fold_on_getConfig_awaiting [of config "getConfig_listeners w" w]
  by (fastforce simp: wf_world_def dispatch_getConfig_def list_all_iff)

lemma wf_world_camera_settled: "wf_world w \<Longrightarrow> wf_world (camera_settled cam outcome w)"
proof -
  assume wf: "wf_world w"
  let ?w0 = "w\<lparr>awaiting_camera := filter (\<lambda>p. fst p \<noteq> cam) (awaiting_camera w)\<rparr>"
  have "wf_world ?w0" using wf by (auto simp: wf_world_def list_all_iff)
  moreover have "same_frame ?w0 (camera_settled cam outcome w)"
    unfolding camera_settled_def by (rule same_frame_fold) (rule same_frame_resume)
  ultimately show ?thesis by (rule same_frame_wf [rotated])
qed

lemma wf_world_animation_frame: "wf_world w \<Longrightarrow> wf_world (animation_frame w)"
proof -
  assume wf: "wf_world w"
  let ?w0 = "w\<lparr>animation_callbacks := []\<rparr>"
  have "wf_world ?w0" using wf by (simp add: wf_world_def)
  moreover have "same_frame ?w0 (animation_frame w)"
    unfolding animation_frame_def by (rule same_frame_fold) (rule same_frame_run_callback)
  ultimately show ?thesis by (rule same_frame_wf [rotated])
qed

lemma wf_world_step:
  fixes w :: "'n::{zero,numeral,inverse} world"
  shows "wf_world w \<Longrightarrow> wf_world (step E act w)"
proof (cases act)
  case (CallInit wd ht urls nms cfg st)
  then show "wf_world w \<Longrightarrow> ?thesis" by (simp add: wf_world_init)
next
  case (CallInitWithEntities wd ht es cfg st)
  then show "wf_world w \<Longrightarrow> ?thesis"
    using wf_world_init [of "w\<lparr>entities := Some es\<rparr>"]
    by (simp add: initWithEntities_as_init)
next
  case (ConfigReady config)
  then show "wf_world w \<Longrightarrow> ?thesis" by (simp add: wf_world_dispatch)
next
  case (CameraSettled cam outcome)
  then show "wf_world w \<Longrightarrow> ?thesis" by (simp add: wf_world_camera_settled)
next
  case AnimationFrame
  then show "wf_world w \<Longrightarrow> ?thesis" by (simp add: wf_world_animation_frame)
qed (simp_all add: wf_world_def set_this_def dispose_def disposeVideoStream_def disposeNFT_def
       calls_def split: option.splits)

lemma wf_world_run:
  fixes w :: "'n::{zero,numeral,inverse} world"
  shows "wf_world w \<Longrightarrow> wf_world (run E acts w)"
  unfolding run_def by (induction acts arbitrary: w) (simp_all add: wf_world_step)

lemma wf_world_reachable:
  "wf_world (run E acts (initial_world :: 'n::{zero,numeral,inverse} world))"
  by (rule wf_world_run) simp

subsection \<open>What a step leaves alone\<close>

lemma this_at_calls: "this_at a (calls cs w) = this_at a w"
  by (simp add: this_at_def calls_def)

lemma update_this_at: "this_at a (snd (update u w)) = this_at a w"
  by (simp add: update_def this_at_def calls_def Let_def split: option.splits)

lemma marker_body_other:
  "l_this l \<noteq> a \<Longrightarrow> this_at a (snd (marker_body l m i w)) = this_at a w"
  by (simp add: marker_body_def update_def this_at_def calls_def set_this_def Let_def
        split: option.splits)

lemma forEach_markers_other:
  "l_this l \<noteq> a \<Longrightarrow> this_at a (snd (forEach_markers l ms i w)) = this_at a w"
proof (induction ms arbitrary: i w)
  case Nil
  then show ?case by simp
next
  case (Cons m ms)
  show ?case
  proof (cases "marker_body l m i w")
    case (Pair c w1)
    have 1: "this_at a w1 = this_at a w"
      using marker_body_other [OF Cons.prems, of m i w] Pair by simp
    show ?thesis
      using Pair 1 Cons.IH [OF Cons.prems, of "Suc i" w1] by (cases c) simp_all
  qed
qed

lemma resume_other: "l_this l \<noteq> a \<Longrightarrow> this_at a (resume outcome l w) = this_at a w"
proof (cases outcome)
  case (Fulfilled u)
  assume o: "l_this l \<noteq> a"
  show ?thesis
  proof (cases "forEach_markers l (l_markerUrls l) 0 w")
    case (Pair c w1)
    have 1: "this_at a w1 = this_at a w"
      using forEach_markers_other [OF o, of "l_markerUrls l" 0 w] Pair by simp
    show ?thesis
      using Pair 1 by (cases c) (simp_all add: resume_def Fulfilled this_at_calls)
  qed
next
  case (Rejected err)
  then show ?thesis by (simp add: resume_def this_at_calls)
qed

lemma fold_resume_other:
  "\<forall>l \<in> set ls. l_this l \<noteq> a \<Longrightarrow> this_at a (fold (resume outcome) ls w) = this_at a w"
  by (induction ls arbitrary: w) (simp_all add: resume_other)

lemma run_callback_this_at: "this_at a (run_callback u w) = this_at a w"
proof (cases "update u w")
  case (Pair c w1)
  have 1: "this_at a w1 = this_at a w" using update_this_at [of a u w] Pair by simp
  show ?thesis using Pair 1 by (cases c) (simp_all add: run_callback_def this_at_calls)
qed

lemma fold_run_callback_this_at: "this_at a (fold run_callback us w) = this_at a w"
  by (induction us arbitrary: w) (simp_all add: run_callback_this_at)

lemma camera_settled_awaiting:
  "awaiting_camera (camera_settled cam outcome w) =
     filter (\<lambda>p. fst p \<noteq> cam) (awaiting_camera w)"
proof -
  let ?w0 = "w\<lparr>awaiting_camera := filter (\<lambda>p. fst p \<noteq> cam) (awaiting_camera w)\<rparr>"
  have "same_frame ?w0 (camera_settled cam outcome w)"
    unfolding camera_settled_def by (rule same_frame_fold) (rule same_frame_resume)
  then show ?thesis by (simp add: same_frame_def)
qed

lemma camera_settled_length:
  "length (instances (camera_settled cam outcome w)) = length (instances w)"
proof -
  let ?w0 = "w\<lparr>awaiting_camera := filter (\<lambda>p. fst p \<noteq> cam) (awaiting_camera w)\<rparr>"
  have "same_frame ?w0 (camera_settled cam outcome w)"
    unfolding camera_settled_def by (rule same_frame_fold) (rule same_frame_resume)
  then show ?thesis by (simp add: same_frame_def)
qed

lemma animation_frame_same:
  "awaiting_camera (animation_frame w) = awaiting_camera w"
  "length (instances (animation_frame w)) = length (instances w)"
  "this_at a (animation_frame w) = this_at a w"
proof -
  let ?w0 = "w\<lparr>animation_callbacks := []\<rparr>"
  have "same_frame ?w0 (animation_frame w)"
    unfolding animation_frame_def by (rule same_frame_fold) (rule same_frame_run_callback)
  then show "awaiting_camera (animation_frame w) = awaiting_camera w"
    "length (instances (animation_frame w)) = length (instances w)"
    by (simp_all add: same_frame_def)
  show "this_at a (animation_frame w) = this_at a w"
    by (simp add: animation_frame_def fold_run_callback_this_at) (simp add: this_at_def)
qed

lemma wf_awaiting_fold_on_getConfig:
  "\<forall>l \<in> set L. l_this l < length (instances w) \<Longrightarrow> wf_awaiting w \<Longrightarrow>
     wf_awaiting (fold (on_getConfig config) L w)"
proof (induction L arbitrary: w)
  case Nil
  then show ?case by simp
next
  case (Cons l L)
  have 1: "wf_awaiting (on_getConfig config l w)"
    using Cons.prems by (auto simp: wf_awaiting_def list_all_iff)
  have 2: "\<forall>l' \<in> set L. l_this l' < length (instances (on_getConfig config l w))"
    using Cons.prems by simp
  show ?case using Cons.IH [OF 2 1] by simp
qed

lemma wf_awaiting_step:
  fixes w :: "'n::{zero,numeral,inverse} world"
  assumes "wf_world w" "wf_awaiting w"
  shows "wf_awaiting (step E act w)"
proof (cases act)
  case (CallInit wd ht urls nms cfg st)
  then show ?thesis using assms by (auto simp: wf_awaiting_def init_eq list_all_iff)
next
  case (CallInitWithEntities wd ht es cfg st)
  then show ?thesis
    using assms by (auto simp: wf_awaiting_def initWithEntities_as_init init_eq list_all_iff)
next
  case (ConfigReady config)
  then show ?thesis
    using assms
    by (simp add: dispatch_getConfig_def wf_world_def list_all_iff wf_awaiting_fold_on_getConfig)
next
  case (CameraSettled cam outcome)
  then show ?thesis
    using assms
    by (auto simp: wf_awaiting_def camera_settled_awaiting camera_settled_length list_all_iff)
next
  case AnimationFrame
  then show ?thesis using assms by (simp add: wf_awaiting_def animation_frame_same)
qed (use assms in \<open>auto simp: wf_awaiting_def set_this_def dispose_def disposeVideoStream_def
       disposeNFT_def calls_def list_all_iff split: option.splits\<close>)

lemma wf_awaiting_run:
  fixes w :: "'n::{zero,numeral,inverse} world"
  shows "wf_world w \<Longrightarrow> wf_awaiting w \<Longrightarrow> wf_awaiting (run E acts w)"
  unfolding run_def
  by (induction acts arbitrary: w) (simp_all add: wf_awaiting_step wf_world_step)

lemma wf_awaiting_reachable:
  "wf_awaiting (run E acts (initial_world :: 'n::{zero,numeral,inverse} world))"
  by (rule wf_awaiting_run) (simp, simp add: wf_awaiting_def initial_world_def)

lemma wf_awaiting_entities: "wf_awaiting (w\<lparr>entities := e\<rparr>) = wf_awaiting w"
  by (simp add: wf_awaiting_def)

lemma step_fields:
  fixes w :: "'n::{zero,numeral,inverse} world"
  assumes q: "\<not> dispatches_config_ready act"
    and o: "\<forall>p \<in> set (awaiting_camera w). l_this (snd p) = a \<longrightarrow> \<not> settles (fst p) act"
    and len: "a < length (instances w)"
  shows "map_option session_fields (this_at a (step E act w)) =
         map_option session_fields (this_at a w)"
proof (cases act)
  case (CallInit wd ht urls nms cfg st)
  then show ?thesis using len by (simp add: init_eq this_at_def nth_append)
next
  case (CallInitWithEntities wd ht es cfg st)
  then show ?thesis
    using len by (simp add: initWithEntities_as_init init_eq this_at_def nth_append)
next
  case (ConfigReady config)
  then show ?thesis using q by simp
next
  case (CameraSettled cam outcome)
  let ?w0 = "w\<lparr>awaiting_camera := filter (\<lambda>p. fst p \<noteq> cam) (awaiting_camera w)\<rparr>"
  have o': "\<forall>l \<in> set (map snd (filter (\<lambda>p. fst p = cam) (awaiting_camera w))). l_this l \<noteq> a"
    using o CameraSettled by auto
  have "this_at a (camera_settled cam outcome w) = this_at a ?w0"
    unfolding camera_settled_def by (rule fold_resume_other [OF o'])
  then have "this_at a (camera_settled cam outcome w) = this_at a w"
    by (simp add: this_at_def)
  then show ?thesis using CameraSettled by simp
next
  case AnimationFrame
  then show ?thesis by (simp add: animation_frame_same)
next
  case (CallSetFPS a' v)
  then show ?thesis
    by (auto simp: this_at_def set_this_def setFPS_def nth_list_update session_fields_def
          split: option.splits)
qed (auto simp: this_at_def dispose_def disposeVideoStream_def disposeNFT_def calls_def
       split: option.splits)

lemma step_awaiting:
  fixes w :: "'n::{zero,numeral,inverse} world"
  assumes q: "\<not> dispatches_config_ready act"
  shows "awaiting_camera (step E act w) =
           filter (\<lambda>p. \<not> settles (fst p) act) (awaiting_camera w)"
proof (cases act)
  case (ConfigReady config)
  then show ?thesis using q by simp
next
  case (CameraSettled cam outcome)
  have "filter (\<lambda>p. fst p \<noteq> cam) (awaiting_camera w) =
        filter (\<lambda>p. cam \<noteq> fst p) (awaiting_camera w)"
    by (rule filter_cong) auto
  then show ?thesis using CameraSettled by (simp add: camera_settled_awaiting)
next
  case AnimationFrame
  then show ?thesis by (simp add: animation_frame_same)
qed (auto simp: init_eq initWithEntities_as_init set_this_def dispose_def disposeVideoStream_def
       disposeNFT_def calls_def split: option.splits)

lemma step_listeners:
  fixes w :: "'n::{zero,numeral,inverse} world"
  shows "\<exists>Lnew. getConfig_listeners (step E act w) = getConfig_listeners w @ Lnew
            \<and> (\<forall>l \<in> set Lnew. length (instances w) \<le> l_this l)"
    and "length (instances w) \<le> length (instances (step E act w))"
proof -
  have "(\<exists>Lnew. getConfig_listeners (step E act w) = getConfig_listeners w @ Lnew
            \<and> (\<forall>l \<in> set Lnew. length (instances w) \<le> l_this l))
        \<and> length (instances w) \<le> length (instances (step E act w))"
  proof (cases act)
    case (ConfigReady config)
    then show ?thesis by (simp add: dispatch_getConfig_def)
  next
    case (CameraSettled cam outcome)
    let ?w0 = "w\<lparr>awaiting_camera := filter (\<lambda>p. fst p \<noteq> cam) (awaiting_camera w)\<rparr>"
    have "same_frame ?w0 (camera_settled cam outcome w)"
      unfolding camera_settled_def by (rule same_frame_fold) (rule same_frame_resume)
    then show ?thesis using CameraSettled by (simp add: same_frame_def)
  next
    case AnimationFrame
    let ?w0 = "w\<lparr>animation_callbacks := []\<rparr>"
    have "same_frame ?w0 (animation_frame w)"
      unfolding animation_frame_def by (rule same_frame_fold) (rule same_frame_run_callback)
    then show ?thesis using AnimationFrame by (simp add: same_frame_def)
  qed (auto simp: init_eq initWithEntities_as_init set_this_def dispose_def disposeVideoStream_def
         disposeNFT_def calls_def split: option.splits)
  then show "\<exists>Lnew. getConfig_listeners (step E act w) = getConfig_listeners w @ Lnew
            \<and> (\<forall>l \<in> set Lnew. length (instances w) \<le> l_this l)"
    and "length (instances w) \<le> length (instances (step E act w))" by blast+
qed

lemma run_frame:
  fixes w :: "'n::{zero,numeral,inverse} world"
  assumes q: "\<not> list_ex dispatches_config_ready acts"
    and o: "\<forall>p \<in> set (awaiting_camera w). l_this (snd p) = a \<longrightarrow> \<not> list_ex (settles (fst p)) acts"
    and len: "a < length (instances w)"
  shows "map_option session_fields (this_at a (run E acts w)) =
         map_option session_fields (this_at a w)
       \<and> filter (\<lambda>p. l_this (snd p) = a) (awaiting_camera (run E acts w)) =
         filter (\<lambda>p. l_this (snd p) = a) (awaiting_camera w)
       \<and> (\<not> list_ex (settles cam) acts \<longrightarrow>
           filter (\<lambda>p. fst p = cam) (awaiting_camera (run E acts w)) =
           filter (\<lambda>p. fst p = cam) (awaiting_camera w))
       \<and> length (instances w) \<le> length (instances (run E acts w))
       \<and> (\<exists>Lnew. getConfig_listeners (run E acts w) = getConfig_listeners w @ Lnew
            \<and> (\<forall>l \<in> set Lnew. length (instances w) \<le> l_this l))"
  using q o len
proof (induction acts arbitrary: w)
  case Nil
  then show ?case by (simp add: run_def)
next
  case (Cons act acts)
  let ?w' = "step E act w"
  have qa: "\<not> dispatches_config_ready act" and qs: "\<not> list_ex dispatches_config_ready acts"
    using Cons.prems(1) by simp_all
  have aw: "awaiting_camera ?w' = filter (\<lambda>p. \<not> settles (fst p) act) (awaiting_camera w)"
    by (rule step_awaiting [OF qa])
  have oa: "\<forall>p \<in> set (awaiting_camera w). l_this (snd p) = a \<longrightarrow> \<not> settles (fst p) act"
    using Cons.prems(2) by simp
  have os: "\<forall>p \<in> set (awaiting_camera ?w'). l_this (snd p) = a \<longrightarrow> \<not> list_ex (settles (fst p)) acts"
    using Cons.prems(2) by (simp add: aw)
  have len': "a < length (instances ?w')"
    using step_listeners(2) [of w E act] Cons.prems(3) by simp
  note IH = Cons.IH [OF qs os len']
  have f: "map_option session_fields (this_at a ?w') = map_option session_fields (this_at a w)"
    by (rule step_fields [OF qa oa Cons.prems(3)])
  have ow: "filter (\<lambda>p. l_this (snd p) = a) (awaiting_camera ?w') =
            filter (\<lambda>p. l_this (snd p) = a) (awaiting_camera w)"
    using oa by (simp add: aw) (rule filter_cong, auto)
  have cw: "filter (\<lambda>p. fst p = cam) (awaiting_camera ?w') =
            filter (\<lambda>p. fst p = cam) (awaiting_camera w)" if "\<not> settles cam act"
    using that by (simp add: aw) (rule filter_cong, auto)
  obtain L1 where L1: "getConfig_listeners ?w' = getConfig_listeners w @ L1"
      "\<forall>l \<in> set L1. length (instances w) \<le> l_this l"
    using step_listeners(1) [of E act w] by blast
  obtain L2 where L2: "getConfig_listeners (run E acts ?w') = getConfig_listeners ?w' @ L2"
      "\<forall>l \<in> set L2. length (instances ?w') \<le> l_this l"
    using IH by blast
  have r: "run E (act # acts) w = run E acts ?w'" by (simp add: run_def)
  have ll: "length (instances w) \<le> length (instances ?w')"
    by (rule step_listeners(2))
  have 5: "\<exists>Lnew. getConfig_listeners (run E (act # acts) w) = getConfig_listeners w @ Lnew
            \<and> (\<forall>l \<in> set Lnew. length (instances w) \<le> l_this l)"
    unfolding r using L1 L2 ll by (intro exI [of _ "L1 @ L2"]) auto
  show ?case
    unfolding r using IH f ow cw ll 5 [unfolded r] by auto
qed

subsection \<open>A run with one dispatch\<close>

lemma run_Nil: "run E [] w = w"
  by (simp add: run_def)

lemma run_Cons: "run E (act # acts) w = run E acts (step E act w)"
  by (simp add: run_def)

lemma run_append: "run E (xs @ ys) w = run E ys (run E xs w)"
  by (simp add: run_def)

lemma fold_on_getConfig_awaiting_between:
  "\<exists>Z. awaiting_camera (fold (on_getConfig config) L w) = awaiting_camera w @ Z
        \<and> (\<forall>p \<in> set Z. cameras_created w \<le> fst p \<and> fst p < cameras_created w + length L
              \<and> snd p \<in> set L)"
proof (induction L arbitrary: w)
  case Nil
  then show ?case by simp
next
  case (Cons l L)
  from Cons.IH [of "on_getConfig config l w"] obtain Z where
    Z: "awaiting_camera (fold (on_getConfig config) L (on_getConfig config l w)) =
          awaiting_camera (on_getConfig config l w) @ Z"
       "\<forall>p \<in> set Z. cameras_created (on_getConfig config l w) \<le> fst p
           \<and> fst p < cameras_created (on_getConfig config l w) + length L \<and> snd p \<in> set L"
    by blast
  show ?case
    using Z by (intro exI [of _ "(cameras_created w, l) # Z"]) auto
qed

lemma filter_single:
  assumes "\<forall>x \<in> set xs. \<not> P x" "\<forall>x \<in> set ys. \<not> P x" "\<forall>x \<in> set zs. \<not> P x" "P y"
  shows "filter P (xs @ ys @ [y] @ zs) = [y]"
  using assms by simp

lemma dispatch_starts_one_run:
  fixes w1 :: "'n::{zero,numeral,inverse} world"
  assumes wf: "wf_world w1"
    and L: "getConfig_listeners w1 = Lold @ [l] @ Lnew"
    and other: "\<forall>l' \<in> set Lold \<union> set Lnew. l_this l' \<noteq> l_this l"
    and len: "l_this l < length (instances w1)"
    and own: "\<forall>p \<in> set (awaiting_camera w1). l_this (snd p) \<noteq> l_this l"
  defines "cam \<equiv> cameras_created w1 + length Lold"
  shows "this_at (l_this l) (dispatch_getConfig config w1) =
           Some ((instances w1 ! l_this l)
                  \<lparr>appData := Some config, controllers := Some [], cameraView := Some cam\<rparr>)"
    and "filter (\<lambda>p. fst p = cam) (awaiting_camera (dispatch_getConfig config w1)) = [(cam, l)]"
    and "filter (\<lambda>p. l_this (snd p) = l_this l) (awaiting_camera (dispatch_getConfig config w1)) =
           [(cam, l)]"
proof -
  let ?f = "on_getConfig config :: listener \<Rightarrow> 'n world \<Rightarrow> 'n world"
  let ?a = "l_this l"
  let ?wA = "fold ?f Lold w1"
  let ?wB = "on_getConfig config l ?wA"
  let ?wC = "fold ?f Lnew ?wB"
  have d: "dispatch_getConfig config w1 = ?wC"
    by (simp add: dispatch_getConfig_def L)
  have oo: "\<forall>l' \<in> set Lold. l_this l' \<noteq> ?a" and on: "\<forall>l' \<in> set Lnew. l_this l' \<noteq> ?a"
    using other by auto
  have camA: "cameras_created ?wA = cam" by (simp add: cam_def)
  have lenA: "length (instances ?wA) = length (instances w1)" by simp
  have instA: "instances ?wA ! ?a = instances w1 ! ?a"
    by (rule fold_on_getConfig_other [OF oo])
  have instB: "instances ?wB ! ?a = (instances w1 ! ?a)
                 \<lparr>appData := Some config, controllers := Some [], cameraView := Some cam\<rparr>"
    using len by (simp add: on_getConfig_eq instA cam_def)
  have instC: "instances ?wC ! ?a = instances ?wB ! ?a"
    by (rule fold_on_getConfig_other [OF on])
  show "this_at ?a (dispatch_getConfig config w1) =
           Some ((instances w1 ! ?a)
                  \<lparr>appData := Some config, controllers := Some [], cameraView := Some cam\<rparr>)"
    unfolding d using len by (simp add: this_at_def instC instB)
  obtain Zo where Zo: "awaiting_camera ?wA = awaiting_camera w1 @ Zo"
      "\<forall>p \<in> set Zo. cameras_created w1 \<le> fst p \<and> fst p < cameras_created w1 + length Lold
           \<and> snd p \<in> set Lold"
    using fold_on_getConfig_awaiting_between [of config Lold w1] by blast
  have awB: "awaiting_camera ?wB = awaiting_camera w1 @ Zo @ [(cam, l)]"
    by (simp add: Zo(1) cam_def)
  have camB: "cameras_created ?wB = Suc cam" by (simp add: cam_def)
  obtain Zn where Zn: "awaiting_camera ?wC = awaiting_camera ?wB @ Zn"
      "\<forall>p \<in> set Zn. cameras_created ?wB \<le> fst p \<and> fst p < cameras_created ?wB + length Lnew
           \<and> snd p \<in> set Lnew"
    using fold_on_getConfig_awaiting_between [of config Lnew ?wB] by blast
  have awC: "awaiting_camera ?wC = awaiting_camera w1 @ Zo @ [(cam, l)] @ Zn"
    by (simp add: Zn(1) Zo(1) cam_def)
  have A: "\<forall>p \<in> set (awaiting_camera w1). fst p < cameras_created w1"
    using wf by (auto simp: wf_world_def list_all_iff)
  show "filter (\<lambda>p. fst p = cam) (awaiting_camera (dispatch_getConfig config w1)) = [(cam, l)]"
    unfolding d awC
  proof (rule filter_single)
    show "\<forall>x \<in> set (awaiting_camera w1). \<not> fst x = cam" using A by (auto simp: cam_def)
    show "\<forall>x \<in> set Zo. \<not> fst x = cam" using Zo(2) by (auto simp: cam_def)
    show "\<forall>x \<in> set Zn. \<not> fst x = cam" using Zn(2) camB by auto
    show "fst (cam, l) = cam" by simp
  qed
  show "filter (\<lambda>p. l_this (snd p) = ?a) (awaiting_camera (dispatch_getConfig config w1)) =
          [(cam, l)]"
    unfolding d awC
  proof (rule filter_single)
    show "\<forall>x \<in> set (awaiting_camera w1). \<not> l_this (snd x) = ?a" using own by auto
    show "\<forall>x \<in> set Zo. \<not> l_this (snd x) = ?a" using Zo(2) oo by auto
    show "\<forall>x \<in> set Zn. \<not> l_this (snd x) = ?a" using Zn(2) on by auto
    show "l_this (snd (cam, l)) = ?a" by simp
  qed
qed

lemma filter_empty_conv': "filter P xs = [] \<Longrightarrow> \<forall>x \<in> set xs. \<not> P x"
  by (simp add: filter_empty_conv)

lemma single_dispatch_run:
  fixes w :: "'n::{zero,numeral,inverse} world"
    and E :: env and wd ht :: 'n and urls nms :: "string list" and cfg :: string and st :: bool
    and config :: ConfigData
  assumes wf: "wf_world w" and wa: "wf_awaiting w"
    and q1: "\<not> list_ex dispatches_config_ready acts1"
    and q2: "\<not> list_ex dispatches_config_ready acts2"
    and q3: "\<not> list_ex (settles (cameras_created (run E acts1 (snd (init E wd ht urls nms cfg st w)))
                 + length (getConfig_listeners w))) acts2"
  defines "a \<equiv> length (instances w)"
    and "cam \<equiv> cameras_created (run E acts1 (snd (init E wd ht urls nms cfg st w)))
                 + length (getConfig_listeners w)"
    and "ready \<equiv> run E acts2 (dispatch_getConfig config
                   (run E acts1 (snd (init E wd ht urls nms cfg st w))))"
    and "sessions \<equiv> map (\<lambda>i. \<lparr>worker_id =
                   workers_created (run E acts2 (dispatch_getConfig config
                     (run E acts1 (snd (init E wd ht urls nms cfg st w))))) + i,
                 worker_markerUrl = urls ! i,
                 worker_width = wd, worker_height = ht, worker_uuid = uuidv4 E (uuid_calls w),
                 worker_name = nth_opt nms i\<rparr>) [0..<length urls]"
  shows "map_option session_fields
           (this_at a (run E acts1 (snd (init E wd ht urls nms cfg st w)))) =
           Some (None, None, None, wd, ht, uuidv4 E (uuid_calls w))"
    and "map_option session_fields (this_at a ready) =
           Some (Some config, Some cam, Some [], wd, ht, uuidv4 E (uuid_calls w))"
    and "map_option session_fields (this_at a (camera_settled cam (Fulfilled ()) ready)) =
           Some (Some config, Some cam, Some sessions, wd, ht, uuidv4 E (uuid_calls w))"
    and "trace (camera_settled cam (Fulfilled ()) ready) =
           trace ready @ forEach_calls a cam (cameraPara config) (video_frame ready) st 0 sessions"
    and "animation_callbacks (camera_settled cam (Fulfilled ()) ready) =
           animation_callbacks ready @ map (\<lambda>j. \<lparr>u_this = a, u_index = j\<rparr>) [0 ..< length urls]"
proof -
  let ?l = "\<lparr>l_this = length (instances w), l_markerUrls = urls, l_names = nms, l_stats = st\<rparr>"
  let ?w0 = "snd (init E wd ht urls nms cfg st w)"
  let ?w1 = "run E acts1 ?w0"
  let ?w2 = "dispatch_getConfig config ?w1"
  let ?uu = "uuidv4 E (uuid_calls w)"
  have ready: "ready = run E acts2 ?w2" by (simp add: ready_def)
  have cam: "cam = cameras_created ?w1 + length (getConfig_listeners w)" by (simp add: cam_def)
  have len0: "a < length (instances ?w0)" by (simp add: init_eq a_def)
  have f0: "map_option session_fields (this_at a ?w0) = Some (None, None, None, wd, ht, ?uu)"
    by (simp add: init_eq a_def this_at_def session_fields_def constructed_instance_def)
  have own0: "\<forall>p \<in> set (awaiting_camera ?w0). l_this (snd p) \<noteq> a"
    using wa by (auto simp: wf_awaiting_def list_all_iff init_eq a_def)
  have wf0: "wf_world ?w0" using wf by (rule wf_world_init)
  have L0: "getConfig_listeners ?w0 = getConfig_listeners w @ [?l]" by (simp add: init_eq)
  have old: "\<forall>l' \<in> set (getConfig_listeners w). l_this l' \<noteq> a"
    using wf by (auto simp: wf_world_def list_all_iff a_def)
  have o1: "\<forall>p \<in> set (awaiting_camera ?w0). l_this (snd p) = a \<longrightarrow>
              \<not> list_ex (settles (fst p)) acts1"
    using own0 by simp
  note r1 = run_frame [OF q1 o1 len0, of E cam]
  have f1: "map_option session_fields (this_at a ?w1) = Some (None, None, None, wd, ht, ?uu)"
    using r1 f0 by simp
  have own1: "\<forall>p \<in> set (awaiting_camera ?w1). l_this (snd p) \<noteq> a"
  proof -
    have "filter (\<lambda>p. l_this (snd p) = a) (awaiting_camera ?w0) = []"
      using own0 by (simp add: filter_empty_conv)
    then have "filter (\<lambda>p. l_this (snd p) = a) (awaiting_camera ?w1) = []"
      using r1 by simp
    then show ?thesis by (rule filter_empty_conv')
  qed
  show "map_option session_fields (this_at a ?w1) = Some (None, None, None, wd, ht, ?uu)"
    by (rule f1)
  have len1: "a < length (instances ?w1)" using r1 len0 by simp
  obtain Lnew where Lnew: "getConfig_listeners ?w1 = getConfig_listeners ?w0 @ Lnew"
      "\<forall>l' \<in> set Lnew. length (instances ?w0) \<le> l_this l'"
    using r1 by blast
  have L1: "getConfig_listeners ?w1 = getConfig_listeners w @ [?l] @ Lnew"
    using Lnew(1) by (simp add: L0)
  have new: "\<forall>l' \<in> set Lnew. l_this l' \<noteq> a"
    using Lnew(2) len0 by auto
  have wf1: "wf_world ?w1" using wf0 by (rule wf_world_run)
  have other: "\<forall>l' \<in> set (getConfig_listeners w) \<union> set Lnew. l_this l' \<noteq> l_this ?l"
    using old new by (auto simp: a_def)
  have len1': "l_this ?l < length (instances ?w1)" using len1 by (simp add: a_def)
  have own1': "\<forall>p \<in> set (awaiting_camera ?w1). l_this (snd p) \<noteq> l_this ?l"
    using own1 by (simp add: a_def)
  note d = dispatch_starts_one_run [OF wf1 L1 other len1' own1', of config, folded cam, simplified]
  obtain t1 where t1: "this_at a ?w1 = Some t1"
      "session_fields t1 = (None, None, None, wd, ht, ?uu)"
    using f1 by auto
  have i1: "instances ?w1 ! a = t1"
    using t1(1) by (simp add: this_at_def split: if_splits)
  have f2: "map_option session_fields (this_at a ?w2) =
              Some (Some config, Some cam, Some [], wd, ht, ?uu)"
    using d(1) t1(2) i1 by (simp add: a_def session_fields_def)
  have c2: "filter (\<lambda>p. fst p = cam) (awaiting_camera ?w2) = [(cam, ?l)]"
    using d(2) by simp
  have o2: "filter (\<lambda>p. l_this (snd p) = a) (awaiting_camera ?w2) = [(cam, ?l)]"
    using d(3) by (simp add: a_def)
  have len2: "a < length (instances ?w2)"
    using len1 by (simp add: dispatch_getConfig_def)
  have o3: "\<forall>p \<in> set (awaiting_camera ?w2). l_this (snd p) = a \<longrightarrow>
              \<not> list_ex (settles (fst p)) acts2"
  proof (intro ballI impI)
    fix p assume "p \<in> set (awaiting_camera ?w2)" "l_this (snd p) = a"
    then have "p \<in> set (filter (\<lambda>p. l_this (snd p) = a) (awaiting_camera ?w2))" by simp
    then have "p = (cam, ?l)" unfolding o2 by simp
    then show "\<not> list_ex (settles (fst p)) acts2" using q3 by (simp add: cam)
  qed
  have q3': "\<not> list_ex (settles cam) acts2" using q3 by (simp add: cam)
  note r3 = run_frame [OF q2 o3 len2, of E cam, folded ready]
  have f3: "map_option session_fields (this_at a ready) =
              Some (Some config, Some cam, Some [], wd, ht, ?uu)"
    using r3 f2 by simp
  have c3: "filter (\<lambda>p. fst p = cam) (awaiting_camera ready) = [(cam, ?l)]"
    using r3 q3' c2 by simp
  show "map_option session_fields (this_at a ready) =
          Some (Some config, Some cam, Some [], wd, ht, ?uu)"
    by (rule f3)
  let ?r' = "ready\<lparr>awaiting_camera := filter (\<lambda>p. fst p \<noteq> cam) (awaiting_camera ready)\<rparr>"
  obtain t where t: "this_at a ready = Some t"
      "session_fields t = (Some config, Some cam, Some [], wd, ht, ?uu)"
    using f3 by auto
  have t': "this_at (l_this ?l) ?r' = Some t"
    using t(1) by (auto simp: this_at_def a_def split: if_splits)
  have s: "camera_settled cam (Fulfilled ()) ready = resume (Fulfilled ()) ?l ?r'"
    by (simp add: camera_settled_def c3)
  have eq: "sessions_from t nms (workers_created ready) 0 urls = sessions"
    using t(2)
    by (simp add: sessions_from_map sessions_def new_session_def session_fields_def ready)
  note rf = resume_fulfilled [OF t', of config cam "()"]
  have r: "camera_settled cam (Fulfilled ()) ready =
     ?r'\<lparr>workers_created := workers_created ready + length urls,
       instances := (instances ready)[a := t\<lparr>controllers := Some sessions\<rparr>],
       trace := trace ready @ forEach_calls a cam (cameraPara config) (video_frame ready) st
                   0 sessions,
       animation_callbacks := animation_callbacks ready @
          map (\<lambda>j. \<lparr>u_this = a, u_index = j\<rparr>) [0 ..< length urls]\<rparr>"
    using rf t(2) eq by (simp add: s session_fields_def a_def)
  have la: "a < length (instances ready)"
    using t(1) by (simp add: this_at_def split: if_splits)
  show "map_option session_fields (this_at a (camera_settled cam (Fulfilled ()) ready)) =
           Some (Some config, Some cam, Some sessions, wd, ht, ?uu)"
    using la t(2) by (simp add: r this_at_def session_fields_def)
  show "trace (camera_settled cam (Fulfilled ()) ready) =
           trace ready @ forEach_calls a cam (cameraPara config) (video_frame ready) st 0 sessions"
    by (simp add: r)
  show "animation_callbacks (camera_settled cam (Fulfilled ()) ready) =
           animation_callbacks ready @ map (\<lambda>j. \<lparr>u_this = a, u_index = j\<rparr>) [0 ..< length urls]"
    by (simp add: r)
qed

subsection \<open>The promise of a call\<close>

lemma fold_settle_length [simp]: "length (fold settle js ps) = length ps"
  by (induction js arbitrary: ps) (simp_all add: settle_def)

lemma async_call_settles:
  assumes "body (world_of pg) = (outcome, w1)"
  shows "fst (async_call body pg) = length (returned pg)"
    and "world_of (snd (async_call body pg)) = w1"
    and "nth_opt (returned (snd (async_call body pg))) (length (returned pg)) = Some Pending"
    and "nth_opt (returned (run_microtasks (in_task code (snd (async_call body pg)))))
           (length (returned pg)) = Some (Settled outcome)"
    and "world_of (run_microtasks (snd (async_call body pg))) = w1"
    and "nth_opt (returned (run_microtasks (snd (async_call body pg)))) (length (returned pg)) =
           Some (Settled outcome)"
    and "nth_opt (returned (next_task code (snd (async_call body pg)))) (length (returned pg)) =
           Some (Settled outcome)"
    and "world_of (next_task code (snd (async_call body pg))) = code w1"
  using assms
  by (simp_all add: async_call_def run_microtasks_def in_task_def next_task_def settle_def
        nth_opt_def)

lemma async_call_world:
  assumes "body (world_of pg) = (outcome, w1)"
  shows "world_of (run_microtasks (in_task code (snd (async_call body pg)))) = code w1"
  using assms by (simp add: async_call_def run_microtasks_def in_task_def)

subsection \<open>The concrete runs\<close>

lemmas eval_defs =
  run_def init_def new_ARnft_def setFPS_def initialize_def this_at_def calls_def
  dispatch_getConfig_def on_getConfig_def set_this_def camera_settled_def resume_def
  marker_body_def update_def nth_opt_def animation_frame_def run_callback_def
  initial_world_def example_env_def example_config_def Let_def

lemma wf_one_started: "wf_world one_started"
  unfolding one_started_def by (rule wf_world_reachable)

lemma wf_awaiting_initial_world: "wf_awaiting initial_world"
  by (simp add: wf_awaiting_def initial_world_def)

lemma wf_awaiting_one_started: "wf_awaiting one_started"
  unfolding one_started_def by (rule wf_awaiting_reachable)

lemma one_started_fields:
  "workers_created one_started = 1"
  "cameras_created one_started = 1"
  "uuid_calls one_started = 1"
  "length (instances one_started) = 1"
  "length (getConfig_listeners one_started) = 1"
  "sessions_constructed (trace one_started) =
     [\<lparr>worker_id = 0, worker_markerUrl = ''markerZ'', worker_width = 320,
        worker_height = 240, worker_uuid = ''uuid-'', worker_name = Some ''Zed''\<rparr>]"
  by (simp_all add: one_started_def eval_defs sessions_constructed_def)

lemma two_orchestrators_world:
  "sessions_constructed (trace (run example_env two_orchestrators_run initial_world)) =
     [session_A 0, session_Z 1, session_A 2, session_Z 3]"
  "sessions_initialized (trace (run example_env two_orchestrators_run initial_world)) =
     [session_A 0, session_Z 1, session_A 0, session_Z 1]"
  "sessions_processed (trace (run example_env two_orchestrators_run initial_world)) =
     [session_A 0, session_A 0, session_Z 1, session_Z 1,
      session_A 0, session_A 0, session_Z 1, session_Z 1]"
  "map_option controllers (this_at 0 (run example_env two_orchestrators_run initial_world)) =
     Some (Some [session_A 0, session_A 2])"
  "map_option controllers (this_at 1 (run example_env two_orchestrators_run initial_world)) =
     Some (Some [session_Z 1, session_Z 3])"
  "animation_callbacks (run example_env two_orchestrators_run initial_world) =
     [\<lparr>u_this = 0, u_index = 0\<rparr>, \<lparr>u_this = 1, u_index = 0\<rparr>,
      \<lparr>u_this = 0, u_index = 0\<rparr>, \<lparr>u_this = 1, u_index = 0\<rparr>]"
  by (simp_all add: two_orchestrators_run_def eval_defs sessions_constructed_def
        sessions_initialized_def sessions_processed_def session_A_def session_Z_def)

lemma two_orchestrators_frame:
  "sessions_initialized (trace (run example_env (two_orchestrators_run @ [AnimationFrame])
         initial_world)) =
     [session_A 0, session_Z 1, session_A 0, session_Z 1]"
  "sessions_processed (trace (run example_env (two_orchestrators_run @ [AnimationFrame])
         initial_world)) =
     [session_A 0, session_A 0, session_Z 1, session_Z 1,
      session_A 0, session_A 0, session_Z 1, session_Z 1,
      session_A 0, session_Z 1, session_A 0, session_Z 1]"
  by (simp_all add: two_orchestrators_run_def eval_defs sessions_constructed_def
        sessions_initialized_def sessions_processed_def session_A_def session_Z_def)

section \<open>The claims\<close>

text \<open>
  Claim C1, as amended. For every list of marker descriptors, given as the two lists of
  \<^verbatim>\<open>init\<close> or as the entity list of \<^verbatim>\<open>initWithEntities\<close>: when the call is followed by
  exactly one dispatch of the config-ready event and then by the resolution of the Camera
  View initialization which that dispatch starts for the new orchestrator, the orchestrator
  has constructed exactly one session per marker locator, in input order; the \<open>i\<close>-th
  session is constructed with the \<open>i\<close>-th marker locator, the width, height and identity of
  the orchestrator and \<^verbatim>\<open>names[i]\<close> (the \<open>i\<close>-th name; \<^verbatim>\<open>undefined\<close> when \<^verbatim>\<open>names\<close> is
  shorter), and these sessions are the orchestrator's \<^verbatim>\<open>controllers\<close>.

  The run starts in a world \<open>w\<close> that is any well-formed world, as every reachable world
  is (\<open>wf_world_reachable\<close>, \<open>wf_awaiting_reachable\<close>). Between the call and the dispatch
  the page does \<open>acts1\<close>, between the dispatch and the resolution \<open>acts2\<close>: any actions,
  on this orchestrator or on others, except a dispatch of the event (\<open>once\<close>) and, in
  \<open>acts2\<close>, the settlement of the awaited promise itself (\<open>pending\<close>). The listener of the
  new orchestrator is registered after those of \<open>w\<close>, so the Camera View its run
  constructs is number \<open>cam\<close>. The session list of the orchestrator is \<^verbatim>\<open>undefined\<close> up
  to the dispatch and empty up to the resolution; the step of the resolution constructs
  the sessions of the claim and no other, and they are the session list from then on.
  When the page does nothing in between, they are all the sessions that the run
  constructs. Nothing is said of a run in which the event is dispatched again.
\<close>

theorem sessions_constructed_in_input_order:
  fixes w :: "'n::{zero,numeral,inverse} world"
    and E :: env and wd ht :: 'n and urls nms :: "string list" and cfg :: string and st :: bool
    and config :: ConfigData and es :: "Entity list"
    and call :: "'n action" and acts1 acts2 :: "'n action list" and cam :: nat
  assumes wf: "wf_world w" and wa: "wf_awaiting w"
    and call: "call = CallInit wd ht urls nms cfg st
             \<or> call = CallInitWithEntities wd ht es cfg st
                 \<and> urls = map markerUrl es \<and> nms = map name es"
    and once: "\<not> list_ex dispatches_config_ready (acts1 @ acts2)"
    and cam: "cam = cameras_created (run E (call # acts1) w) + length (getConfig_listeners w)"
    and pending: "\<not> list_ex (settles cam) acts2"
  defines "a \<equiv> length (instances w)"
    and "ready \<equiv> run E (call # acts1 @ ConfigReady config # acts2) w"
    and "started \<equiv>
           run E (call # acts1 @ ConfigReady config # acts2 @ [CameraSettled cam (Fulfilled ())]) w"
    and "session \<equiv> (\<lambda>i. \<lparr>worker_id =
                   workers_created (run E (call # acts1 @ ConfigReady config # acts2) w) + i,
                 worker_markerUrl = urls ! i,
                 worker_width = wd, worker_height = ht, worker_uuid = uuidv4 E (uuid_calls w),
                 worker_name = nth_opt nms i\<rparr>)"
  shows "map_option controllers (this_at a (run E (call # acts1) w)) = Some None
       \<and> map_option controllers (this_at a ready) = Some (Some [])
       \<and> map_option controllers (this_at a started) = Some (Some (map session [0..<length urls]))
       \<and> sessions_constructed (trace started) =
           sessions_constructed (trace ready) @ map session [0..<length urls]
       \<and> map_option (\<lambda>t. (width t, height t, uuid t)) (this_at a started) =
           Some (wd, ht, uuidv4 E (uuid_calls w))
       \<and> (acts1 = [] \<and> acts2 = [] \<longrightarrow>
           sessions_constructed (trace started) =
             sessions_constructed (trace w) @ map session [0..<length urls])"
proof -
  have q1: "\<not> list_ex dispatches_config_ready acts1"
    and q2: "\<not> list_ex dispatches_config_ready acts2"
    using once by simp_all
  define w' where "w' = (if call = CallInit wd ht urls nms cfg st then w
                         else w\<lparr>entities := Some es\<rparr>)"
  have s: "step E call w = snd (init E wd ht urls nms cfg st w')"
    using call by (auto simp: w'_def initWithEntities_as_init)
  have same: "instances w' = instances w" "getConfig_listeners w' = getConfig_listeners w"
    "uuid_calls w' = uuid_calls w" "trace w' = trace w"
    by (simp_all add: w'_def)
  have wf': "wf_world w'" and wa': "wf_awaiting w'"
    using wf wa by (simp_all add: w'_def wf_awaiting_entities)
  have cam': "cam = cameras_created (run E acts1 (snd (init E wd ht urls nms cfg st w')))
                 + length (getConfig_listeners w')"
    using cam by (simp add: run_Cons s same)
  have q3: "\<not> list_ex (settles (cameras_created (run E acts1
                 (snd (init E wd ht urls nms cfg st w'))) + length (getConfig_listeners w'))) acts2"
    using pending by (simp add: cam')
  have r: "ready = run E acts2 (dispatch_getConfig config
                   (run E acts1 (snd (init E wd ht urls nms cfg st w'))))"
    by (simp add: ready_def run_Cons run_append s)
  have st: "started = camera_settled cam (Fulfilled ()) ready"
    by (simp add: started_def ready_def run_Cons run_append run_Nil)
  note g0 = single_dispatch_run(1) [OF wf' wa' q1 q2 q3, unfolded same]
  note g = single_dispatch_run(2-5) [OF wf' wa' q1 q2 q3, of config, folded cam' r, unfolded same]
  have ss: "map (\<lambda>i. \<lparr>worker_id = workers_created ready + i, worker_markerUrl = urls ! i,
                       worker_width = wd, worker_height = ht,
                       worker_uuid = uuidv4 E (uuid_calls w), worker_name = nth_opt nms i\<rparr>)
              [0..<length urls] = map session [0..<length urls]"
    by (simp add: session_def ready_def)
  have 0: "map_option controllers (this_at a (run E (call # acts1) w)) = Some None"
    using g0 by (auto simp: a_def session_fields_def run_Cons s)
  have 1: "map_option controllers (this_at a ready) = Some (Some [])"
    using g(1) by (auto simp: a_def session_fields_def)
  have 2: "map_option controllers (this_at a started) = Some (Some (map session [0..<length urls]))"
    using g(2) by (auto simp: a_def session_fields_def st ss)
  have 3: "sessions_constructed (trace started) =
           sessions_constructed (trace ready) @ map session [0..<length urls]"
    using g(3) by (simp add: st ss)
  have 4: "map_option (\<lambda>t. (width t, height t, uuid t)) (this_at a started) =
           Some (wd, ht, uuidv4 E (uuid_calls w))"
    using g(2) by (auto simp: a_def session_fields_def st)
  have 5: "sessions_constructed (trace ready) = sessions_constructed (trace w)"
    if "acts1 = []" "acts2 = []"
    using config_ready_fulfilled(3) [OF wf', of config E wd ht urls nms cfg st] that
    by (simp add: r same run_Nil)
  show ?thesis using 0 1 2 3 4 5 by auto
qed

text \<open>
  The scenario of the spec, from the initial world; a list of two entities, with a new
  video frame before the dispatch and an animation frame before the resolution; and a
  second orchestrator, created on the page \<open>one_started\<close> where a first one has completed
  its start-up. The event dispatched there is the one of the second orchestrator's own
  request. It also runs the listener of the first orchestrator again, which constructs
  Camera View 1 and, when that one resolves, session 1; the Camera View of the second
  orchestrator is number 2, and its session is number 2.
\<close>

theorem sessions_constructed_in_input_order_witness:
  "wf_world (initial_world :: real world) \<and> wf_awaiting (initial_world :: real world)
   \<and> wf_world one_started \<and> wf_awaiting one_started
   \<and> \<not> list_ex dispatches_config_ready
         ([VideoFrame (JObject 7)] @ [AnimationFrame :: real action])
   \<and> \<not> list_ex (settles 2) [CameraSettled 1 (Fulfilled ()) :: real action]
   \<and> sessions_constructed (trace (run example_env
         [CallInit 640 480 [''markerA''] [''Box''] ''config.json'' False,
          ConfigReady example_config,
          CameraSettled 0 (Fulfilled ())] (initial_world :: real world))) =
       [\<lparr>worker_id = 0, worker_markerUrl = ''markerA'', worker_width = 640,
         worker_height = 480, worker_uuid = ''uuid-'', worker_name = Some ''Box''\<rparr>]
   \<and> map_option controllers (this_at 0 (run example_env
         [CallInitWithEntities 640 480
            [\<lparr>name = ''Box'', markerUrl = ''markerA''\<rparr>,
             \<lparr>name = ''Cat'', markerUrl = ''markerB''\<rparr>] ''config.json'' True,
          VideoFrame (JObject 7),
          ConfigReady example_config,
          AnimationFrame,
          CameraSettled 0 (Fulfilled ())] (initial_world :: real world))) =
       Some (Some [\<lparr>worker_id = 0, worker_markerUrl = ''markerA'', worker_width = 640,
                    worker_height = 480, worker_uuid = ''uuid-'', worker_name = Some ''Box''\<rparr>,
                   \<lparr>worker_id = 1, worker_markerUrl = ''markerB'', worker_width = 640,
                    worker_height = 480, worker_uuid = ''uuid-'', worker_name = Some ''Cat''\<rparr>])
   \<and> map_option controllers (this_at 1 (run example_env
         [CallInit 640 480 [''markerA''] [''Box''] ''config.json'' False,
          ConfigReady example_config,
          CameraSettled 1 (Fulfilled ()),
          CameraSettled 2 (Fulfilled ())] one_started)) =
       Some (Some [\<lparr>worker_id = 2, worker_markerUrl = ''markerA'', worker_width = 640,
                    worker_height = 480, worker_uuid = ''uuid-i'', worker_name = Some ''Box''\<rparr>])"
proof -
  have c1: "CallInit 640 480 [''markerA''] [''Box''] ''config.json'' False =
              CallInit 640 480 [''markerA''] [''Box''] ''config.json'' False
          \<or> CallInit 640 480 [''markerA''] [''Box''] ''config.json'' False =
              CallInitWithEntities 640 480 [] ''config.json'' False
              \<and> [''markerA''] = map markerUrl [] \<and> [''Box''] = map name []"
    by simp
  have c2: "CallInitWithEntities 640 480
              [\<lparr>name = ''Box'', markerUrl = ''markerA''\<rparr>,
               \<lparr>name = ''Cat'', markerUrl = ''markerB''\<rparr>] ''config.json'' True =
              CallInit 640 480 [''markerA'', ''markerB''] [''Box'', ''Cat''] ''config.json'' True
          \<or> CallInitWithEntities 640 480
              [\<lparr>name = ''Box'', markerUrl = ''markerA''\<rparr>,
               \<lparr>name = ''Cat'', markerUrl = ''markerB''\<rparr>] ''config.json'' True =
              CallInitWithEntities 640 480
              [\<lparr>name = ''Box'', markerUrl = ''markerA''\<rparr>,
               \<lparr>name = ''Cat'', markerUrl = ''markerB''\<rparr>] ''config.json'' True
              \<and> [''markerA'', ''markerB''] = map markerUrl
                    [\<lparr>name = ''Box'', markerUrl = ''markerA''\<rparr>,
                     \<lparr>name = ''Cat'', markerUrl = ''markerB''\<rparr>]
              \<and> [''Box'', ''Cat''] = map name
                    [\<lparr>name = ''Box'', markerUrl = ''markerA''\<rparr>,
                     \<lparr>name = ''Cat'', markerUrl = ''markerB''\<rparr>]"
    by simp
  have q0: "\<not> list_ex dispatches_config_ready ([] @ ([] :: real action list))" by simp
  have q2: "\<not> list_ex dispatches_config_ready
              ([VideoFrame (JObject 7)] @ [AnimationFrame :: real action])" by simp
  have q3: "\<not> list_ex dispatches_config_ready
              ([] @ [CameraSettled 1 (Fulfilled ()) :: real action])" by simp
  have k1: "(0::nat) = cameras_created (run example_env
              (CallInit 640 480 [''markerA''] [''Box''] ''config.json'' False # [])
              (initial_world :: real world)) + length (getConfig_listeners (initial_world :: real world))"
    by (simp add: eval_defs)
  have k2: "(0::nat) = cameras_created (run example_env
              (CallInitWithEntities 640 480
                [\<lparr>name = ''Box'', markerUrl = ''markerA''\<rparr>,
                 \<lparr>name = ''Cat'', markerUrl = ''markerB''\<rparr>] ''config.json'' True
               # [VideoFrame (JObject 7)])
              (initial_world :: real world)) + length (getConfig_listeners (initial_world :: real world))"
    by (simp add: eval_defs initWithEntities_def)
  have k3: "(2::nat) = cameras_created (run example_env
              (CallInit 640 480 [''markerA''] [''Box''] ''config.json'' False # [])
              one_started) + length (getConfig_listeners one_started)"
    by (simp add: run_def init_eq one_started_fields)
  have p1: "\<not> list_ex (settles 0) ([] :: real action list)" by simp
  have p2: "\<not> list_ex (settles 0) [AnimationFrame :: real action]" by simp
  have p3: "\<not> list_ex (settles 2) [CameraSettled 1 (Fulfilled ()) :: real action]" by simp
  note a = sessions_constructed_in_input_order
    [OF wf_initial_world wf_awaiting_initial_world c1 q0 k1 p1, of example_config]
  note b = sessions_constructed_in_input_order
    [OF wf_initial_world wf_awaiting_initial_world c2 q2 k2 p2, of example_config]
  note c = sessions_constructed_in_input_order
    [OF wf_one_started wf_awaiting_one_started c1 q3 k3 p3, of example_config]
  have 1: "sessions_constructed (trace (run example_env
         [CallInit 640 480 [''markerA''] [''Box''] ''config.json'' False,
          ConfigReady example_config,
          CameraSettled 0 (Fulfilled ())] (initial_world :: real world))) =
       [\<lparr>worker_id = 0, worker_markerUrl = ''markerA'', worker_width = 640,
         worker_height = 480, worker_uuid = ''uuid-'', worker_name = Some ''Box''\<rparr>]"
    using a [THEN conjunct2, THEN conjunct2, THEN conjunct2, THEN conjunct2, THEN conjunct2]
    by (simp add: eval_defs)
  have 2: "map_option controllers (this_at 0 (run example_env
         [CallInitWithEntities 640 480
            [\<lparr>name = ''Box'', markerUrl = ''markerA''\<rparr>,
             \<lparr>name = ''Cat'', markerUrl = ''markerB''\<rparr>] ''config.json'' True,
          VideoFrame (JObject 7),
          ConfigReady example_config,
          AnimationFrame,
          CameraSettled 0 (Fulfilled ())] (initial_world :: real world))) =
       Some (Some [\<lparr>worker_id = 0, worker_markerUrl = ''markerA'', worker_width = 640,
                    worker_height = 480, worker_uuid = ''uuid-'', worker_name = Some ''Box''\<rparr>,
                   \<lparr>worker_id = 1, worker_markerUrl = ''markerB'', worker_width = 640,
                    worker_height = 480, worker_uuid = ''uuid-'', worker_name = Some ''Cat''\<rparr>])"
    using b [THEN conjunct2, THEN conjunct2, THEN conjunct1]
    by (simp add: eval_defs initWithEntities_def)
  have 3: "map_option controllers (this_at 1 (run example_env
         [CallInit 640 480 [''markerA''] [''Box''] ''config.json'' False,
          ConfigReady example_config,
          CameraSettled 1 (Fulfilled ()),
          CameraSettled 2 (Fulfilled ())] one_started)) =
       Some (Some [\<lparr>worker_id = 2, worker_markerUrl = ''markerA'', worker_width = 640,
                    worker_height = 480, worker_uuid = ''uuid-i'', worker_name = Some ''Box''\<rparr>])"
    using c [THEN conjunct2, THEN conjunct2, THEN conjunct1]
    by (simp add: eval_defs one_started_def numeral_2_eq_2)
  show ?thesis
    using 1 2 3 wf_one_started wf_awaiting_one_started wf_awaiting_initial_world by simp
qed

text \<open>
  The claim as stated fails. With two marker descriptors, the config-ready event fires,
  the Camera View initialization rejects, and no session is constructed. And on the page
  of \<open>two_orchestrators_run\<close>, where the event fires twice, the first orchestrator, called
  with one marker descriptor, constructs two sessions: the two that carry its identity,
  which are its \<^verbatim>\<open>controllers\<close>.
\<close>

theorem sessions_not_one_per_marker_counterexample:
  "sessions_constructed (trace (camera_settled 0 (Rejected (JString ''NotAllowedError''))
         (dispatch_getConfig example_config
           (snd (init example_env 640 480 [''markerA'', ''markerB''] [''Box'', ''Cat'']
                  ''config.json'' False (initial_world :: real world)))))) = []
   \<and> map_option controllers (this_at 0 (camera_settled 0 (Rejected (JString ''NotAllowedError''))
         (dispatch_getConfig example_config
           (snd (init example_env 640 480 [''markerA'', ''markerB''] [''Box'', ''Cat'']
                  ''config.json'' False (initial_world :: real world)))))) = Some (Some [])
   \<and> length (sessions_constructed (trace (camera_settled 0
         (Rejected (JString ''NotAllowedError''))
         (dispatch_getConfig example_config
           (snd (init example_env 640 480 [''markerA'', ''markerB''] [''Box'', ''Cat'']
                  ''config.json'' False (initial_world :: real world)))))))
       \<noteq> length [''markerA'', ''markerB'']
   \<and> map_option controllers (this_at 0 (run example_env two_orchestrators_run initial_world)) =
       Some (Some [session_A 0, session_A 2])
   \<and> filter (\<lambda>s. worker_uuid s = ''uuid-'')
         (sessions_constructed (trace (run example_env two_orchestrators_run initial_world))) =
       [session_A 0, session_A 2]
   \<and> length [session_A 0, session_A 2] \<noteq> length [''markerA'']"
proof -
  note r = config_ready_rejected [where w = "initial_world :: real world"
      and config = example_config and E = example_env and wd = 640 and ht = 480
      and urls = "[''markerA'', ''markerB'']" and nms = "[''Box'', ''Cat'']"
      and cfg = "''config.json''" and st = False and err = "JString ''NotAllowedError''",
      OF wf_initial_world]
  have 1: "sessions_constructed (trace (camera_settled 0 (Rejected (JString ''NotAllowedError''))
         (dispatch_getConfig example_config
           (snd (init example_env 640 480 [''markerA'', ''markerB''] [''Box'', ''Cat'']
                  ''config.json'' False (initial_world :: real world)))))) = []"
    using r(2) by (simp add: initial_world_def)
  have 2: "map_option controllers (this_at 0 (camera_settled 0
         (Rejected (JString ''NotAllowedError''))
         (dispatch_getConfig example_config
           (snd (init example_env 640 480 [''markerA'', ''markerB''] [''Box'', ''Cat'']
                  ''config.json'' False (initial_world :: real world)))))) = Some (Some [])"
    using r(5) by (simp add: initial_world_def)
  have 3: "filter (\<lambda>s. worker_uuid s = ''uuid-'')
         (sessions_constructed (trace (run example_env two_orchestrators_run initial_world))) =
       [session_A 0, session_A 2]"
    unfolding two_orchestrators_world(1) by (simp add: session_A_def session_Z_def)
  show ?thesis using 1 2 3 two_orchestrators_world(4) by simp
qed

text \<open>
  Claim C2, as amended. If Camera View initialization rejects with \<open>err\<close>, the error is
  logged, the promise of the config-ready listener rejects with \<^verbatim>\<open>false\<close> and nobody handles
  it, and no Tracking Worker Session is constructed. The promise returned by \<^verbatim>\<open>init\<close> is
  not affected: it has been fulfilled with the orchestrator before the event fired.
\<close>

theorem camera_rejection_stops_listener_only:
  fixes w :: "'n::{zero,numeral,inverse} world"
    and E :: env and wd ht :: 'n and urls nms :: "string list" and cfg :: string and st :: bool
    and config :: ConfigData and err :: jsval
  assumes wf: "wf_world w"
  defines "a \<equiv> length (instances w)"
    and "ready \<equiv> dispatch_getConfig config (snd (init E wd ht urls nms cfg st w))"
    and "rejected \<equiv>
           camera_settled (cameras_created w + length (getConfig_listeners w)) (Rejected err)
             (dispatch_getConfig config (snd (init E wd ht urls nms cfg st w)))"
  shows "fst (init E wd ht urls nms cfg st w) = Fulfilled a
       \<and> trace rejected = trace ready @ [ConsoleError err, UnhandledRejection (JBool False)]
       \<and> sessions_constructed (trace rejected) = sessions_constructed (trace w)
       \<and> workers_created rejected = workers_created w
       \<and> animation_callbacks rejected = animation_callbacks w
       \<and> map_option controllers (this_at a rejected) = Some (Some [])"
  unfolding a_def ready_def rejected_def
  using config_ready_rejected [OF wf, of err config E wd ht urls nms cfg st]
  by (simp add: init_eq)

text \<open>From the initial world, with one marker and a camera that is refused.\<close>

theorem camera_rejection_stops_listener_only_witness:
  "wf_world (initial_world :: real world)
   \<and> workers_created (camera_settled 0 (Rejected (JString ''NotAllowedError''))
         (dispatch_getConfig example_config
           (snd (init example_env 640 480 [''markerA''] [''Box''] ''config.json'' False
                  (initial_world :: real world))))) = 0
   \<and> fst (init example_env 640 480 [''markerA''] [''Box''] ''config.json'' False
          (initial_world :: real world)) = Fulfilled 0"
  using camera_rejection_stops_listener_only [where w = "initial_world :: real world"
      and config = example_config and E = example_env and wd = 640 and ht = 480
      and urls = "[''markerA'']" and nms = "[''Box'']" and cfg = "''config.json''" and st = False
      and err = "JString ''NotAllowedError''"]
  by (simp add: initial_world_def wf_world_def)

text \<open>
  The claim as stated fails: the camera promise rejects, the trace ends with the log of
  the error and the unhandled rejection of the listener, and the promise returned by
  \<^verbatim>\<open>init\<close> is fulfilled with instance 0, not rejected with \<^verbatim>\<open>false\<close>.
\<close>

theorem init_promise_fulfilled_counterexample:
  "fst (init example_env 640 480 [''markerA''] [''Box''] ''config.json'' False
          (initial_world :: real world)) = Fulfilled 0
   \<and> fst (init example_env 640 480 [''markerA''] [''Box''] ''config.json'' False
          (initial_world :: real world)) \<noteq> Rejected (JBool False)
   \<and> trace (camera_settled 0 (Rejected (JString ''NotAllowedError''))
         (dispatch_getConfig example_config
           (snd (init example_env 640 480 [''markerA''] [''Box''] ''config.json'' False
                  (initial_world :: real world))))) =
       [ConsoleLog [''ARnft '', ''1.0.0''], DispatchEvent ''initARnft'',
        ConsoleLog init_start_message, GetConfig ''config.json'',
        AddEventListener ''getConfig''
          \<lparr>l_this = 0, l_markerUrls = [''markerA''], l_names = [''Box''], l_stats = False\<rparr>,
        CreateContainer example_config, CreateLoading example_config,
        CreateStats False example_config,
        NewCameraViewRenderer 0 ''video'', CameraInitialize 0 (JObject 0),
        ConsoleError (JString ''NotAllowedError''), UnhandledRejection (JBool False)]"
  by (simp add: init_def new_ARnft_def setFPS_def initialize_def this_at_def calls_def
        dispatch_getConfig_def on_getConfig_def set_this_def camera_settled_def resume_def
        initial_world_def example_env_def example_config_def Let_def)

text \<open>
  When the listener runs once, every session it creates receives, in this order: the
  construction, \<^verbatim>\<open>initialize\<close> with the current frame, one \<^verbatim>\<open>process\<close> of the current frame
  (the priming call), and then the first run of \<^verbatim>\<open>update\<close>, which is one more \<^verbatim>\<open>process\<close>
  followed by \<^verbatim>\<open>requestAnimationFrame(update)\<close>. The last conjunct says that these three
  calls are what every later run of that session's \<^verbatim>\<open>update\<close> issues: the loop.
\<close>

lemma priming_process_before_loop:
  fixes w :: "'n::{zero,numeral,inverse} world"
    and E :: env and wd ht :: 'n and urls nms :: "string list" and cfg :: string and st :: bool
    and config :: ConfigData
  assumes wf: "wf_world w"
  defines "cam \<equiv> cameras_created w + length (getConfig_listeners w)"
    and "session \<equiv> (\<lambda>i. \<lparr>worker_id = workers_created w + i, worker_markerUrl = urls ! i,
                 worker_width = wd, worker_height = ht, worker_uuid = uuidv4 E (uuid_calls w),
                 worker_name = nth_opt nms i\<rparr>)"
    and "loop \<equiv> (\<lambda>i. \<lparr>u_this = length (instances w), u_index = i\<rparr>)"
    and "ready \<equiv> dispatch_getConfig config (snd (init E wd ht urls nms cfg st w))"
    and "started \<equiv>
           camera_settled (cameras_created w + length (getConfig_listeners w)) (Fulfilled ())
             (dispatch_getConfig config (snd (init E wd ht urls nms cfg st w)))"
  shows "trace started = trace ready @ concat (map (\<lambda>i.
            [NewNFTWorker (session i),
             CameraGetImage cam,
             WorkerInitialize (session i) (cameraPara config) (video_frame w)
               (UpdateIfStats st StatsMain) (UpdateIfStats st StatsWorker),
             CameraGetImage cam, WorkerProcess (session i) (video_frame w)]
            @ [CameraGetImage cam, WorkerProcess (session i) (video_frame w),
               RequestAnimationFrame (loop i)]) [0..<length urls])
       \<and> animation_callbacks started = animation_callbacks w @ map loop [0..<length urls]
       \<and> (\<forall>i < length urls.
             update (loop i) started =
               (Normal (),
                started\<lparr>trace := trace started @
                           [CameraGetImage cam, WorkerProcess (session i) (video_frame w),
                            RequestAnimationFrame (loop i)],
                        animation_callbacks := animation_callbacks started @ [loop i]\<rparr>))"
proof -
  note f = config_ready_fulfilled [OF wf, of config E wd ht urls nms cfg st]
  have t: "trace started = trace ready @ concat (map (\<lambda>i.
            [NewNFTWorker (session i),
             CameraGetImage cam,
             WorkerInitialize (session i) (cameraPara config) (video_frame w)
               (UpdateIfStats st StatsMain) (UpdateIfStats st StatsWorker),
             CameraGetImage cam, WorkerProcess (session i) (video_frame w)]
            @ [CameraGetImage cam, WorkerProcess (session i) (video_frame w),
               RequestAnimationFrame (loop i)]) [0..<length urls])"
  proof -
    have m: "map (\<lambda>j. session_calls (map session [0..<length urls] ! j) cam (cameraPara config)
                   (video_frame w) st \<lparr>u_this = length (instances w), u_index = 0 + j\<rparr>)
               [0..<length (map session [0..<length urls])]
        = map (\<lambda>i.
            [NewNFTWorker (session i),
             CameraGetImage cam,
             WorkerInitialize (session i) (cameraPara config) (video_frame w)
               (UpdateIfStats st StatsMain) (UpdateIfStats st StatsWorker),
             CameraGetImage cam, WorkerProcess (session i) (video_frame w)]
            @ [CameraGetImage cam, WorkerProcess (session i) (video_frame w),
               RequestAnimationFrame (loop i)]) [0..<length urls]"
      by (rule map_cong) (simp_all add: session_calls_def loop_def)
    have A: "forEach_calls (length (instances w)) cam (cameraPara config) (video_frame w) st 0
               (map session [0..<length urls])
        = concat (map (\<lambda>i.
            [NewNFTWorker (session i),
             CameraGetImage cam,
             WorkerInitialize (session i) (cameraPara config) (video_frame w)
               (UpdateIfStats st StatsMain) (UpdateIfStats st StatsWorker),
             CameraGetImage cam, WorkerProcess (session i) (video_frame w)]
            @ [CameraGetImage cam, WorkerProcess (session i) (video_frame w),
               RequestAnimationFrame (loop i)]) [0..<length urls])"
      by (simp only: forEach_calls_concat m)
    have B: "trace started = trace ready @
               forEach_calls (length (instances w)) cam (cameraPara config) (video_frame w) st 0
                 (map session [0..<length urls])"
      unfolding started_def ready_def session_def cam_def by (rule f(2))
    show ?thesis unfolding B A ..
  qed
  have c: "animation_callbacks started = animation_callbacks w @ map loop [0..<length urls]"
    unfolding started_def f(4) loop_def ..
  have u: "update (loop i) started =
               (Normal (),
                started\<lparr>trace := trace started @
                           [CameraGetImage cam, WorkerProcess (session i) (video_frame w),
                            RequestAnimationFrame (loop i)],
                        animation_callbacks := animation_callbacks started @ [loop i]\<rparr>)"
    if "i < length urls" for i
  proof -
    have s1: "this_at (length (instances w)) started =
                Some ((constructed_instance E wd ht cfg (uuid_calls w))
                  \<lparr>appData := Some config, cameraView := Some cam,
                    controllers := Some (map session [0..<length urls])\<rparr>)"
      unfolding started_def session_def cam_def by (rule f(1))
    have s6: "video_frame started = video_frame w"
      unfolding started_def by (rule f(6))
    have s3: "nth_opt (map session [0..<length urls]) i = Some (session i)"
      using that by (simp add: nth_opt_def)
    show ?thesis
      by (simp add: update_def loop_def s1 s3 s6 calls_def)
  qed
  show ?thesis using t c u by blast
qed

text \<open>From the initial world showing frame 7, with one marker.\<close>

lemma priming_process_before_loop_example:
  "wf_world ((initial_world :: real world)\<lparr>video_frame := JObject 7\<rparr>)
   \<and> trace (camera_settled 0 (Fulfilled ())
         (dispatch_getConfig example_config
           (snd (init example_env 640 480 [''markerA''] [''Box''] ''config.json'' False
                  ((initial_world :: real world)\<lparr>video_frame := JObject 7\<rparr>))))) =
       trace (dispatch_getConfig example_config
           (snd (init example_env 640 480 [''markerA''] [''Box''] ''config.json'' False
                  ((initial_world :: real world)\<lparr>video_frame := JObject 7\<rparr>)))) @
       [NewNFTWorker \<lparr>worker_id = 0, worker_markerUrl = ''markerA'', worker_width = 640,
          worker_height = 480, worker_uuid = ''uuid-'', worker_name = Some ''Box''\<rparr>,
        CameraGetImage 0,
        WorkerInitialize \<lparr>worker_id = 0, worker_markerUrl = ''markerA'', worker_width = 640,
          worker_height = 480, worker_uuid = ''uuid-'', worker_name = Some ''Box''\<rparr>
          (JString ''camera_para.dat'') (JObject 7)
          (UpdateIfStats False StatsMain) (UpdateIfStats False StatsWorker),
        CameraGetImage 0,
        WorkerProcess \<lparr>worker_id = 0, worker_markerUrl = ''markerA'', worker_width = 640,
          worker_height = 480, worker_uuid = ''uuid-'', worker_name = Some ''Box''\<rparr> (JObject 7),
        CameraGetImage 0,
        WorkerProcess \<lparr>worker_id = 0, worker_markerUrl = ''markerA'', worker_width = 640,
          worker_height = 480, worker_uuid = ''uuid-'', worker_name = Some ''Box''\<rparr> (JObject 7),
        RequestAnimationFrame \<lparr>u_this = 0, u_index = 0\<rparr>]
   \<and> fst (update \<lparr>u_this = 0, u_index = 0\<rparr> (camera_settled 0 (Fulfilled ())
         (dispatch_getConfig example_config
           (snd (init example_env 640 480 [''markerA''] [''Box''] ''config.json'' False
                  ((initial_world :: real world)\<lparr>video_frame := JObject 7\<rparr>)))))) = Normal ()"
  using priming_process_before_loop [where w = "(initial_world :: real world)\<lparr>video_frame := JObject 7\<rparr>"
      and config = example_config and E = example_env and wd = 640 and ht = 480
      and urls = "[''markerA'']" and nms = "[''Box'']" and cfg = "''config.json''" and st = False]
  by (simp add: initial_world_def wf_world_def example_env_def example_config_def nth_opt_def)

text \<open>
  Claim C7 does not hold of the code when the listener runs again before its first run
  has passed the \<^verbatim>\<open>await\<close>. On the page of \<open>two_orchestrators_run\<close> each listener runs
  twice. The second run of the first orchestrator's listener constructs session 2 and
  pushes it at position 1 of \<^verbatim>\<open>this.controllers\<close>; it then calls \<^verbatim>\<open>initialize\<close> and
  \<^verbatim>\<open>process\<close> on \<^verbatim>\<open>this.controllers[index]\<close> with \<^verbatim>\<open>index\<close> 0, which is session 0 (lines
  193-214). So sessions 0 and 1 are initialized twice and receive four \<^verbatim>\<open>process\<close> calls
  each, the four loops process sessions 0 and 1 only, and sessions 2 and 3 are constructed
  and receive neither \<^verbatim>\<open>initialize\<close> nor any \<^verbatim>\<open>process\<close>: no priming call, and no call
  from a loop in the animation frame that follows.
\<close>

theorem second_listener_run_leaves_sessions_unprocessed:
  "sessions_constructed (trace (run example_env two_orchestrators_run initial_world)) =
     [session_A 0, session_Z 1, session_A 2, session_Z 3]
   \<and> sessions_initialized (trace (run example_env two_orchestrators_run initial_world)) =
     [session_A 0, session_Z 1, session_A 0, session_Z 1]
   \<and> sessions_processed (trace (run example_env two_orchestrators_run initial_world)) =
     [session_A 0, session_A 0, session_Z 1, session_Z 1,
      session_A 0, session_A 0, session_Z 1, session_Z 1]
   \<and> map_option controllers (this_at 0 (run example_env two_orchestrators_run initial_world)) =
     Some (Some [session_A 0, session_A 2])
   \<and> map_option controllers (this_at 1 (run example_env two_orchestrators_run initial_world)) =
     Some (Some [session_Z 1, session_Z 3])
   \<and> animation_callbacks (run example_env two_orchestrators_run initial_world) =
     [\<lparr>u_this = 0, u_index = 0\<rparr>, \<lparr>u_this = 1, u_index = 0\<rparr>,
      \<lparr>u_this = 0, u_index = 0\<rparr>, \<lparr>u_this = 1, u_index = 0\<rparr>]
   \<and> sessions_processed (trace (run example_env (two_orchestrators_run @ [AnimationFrame])
         initial_world)) =
     [session_A 0, session_A 0, session_Z 1, session_Z 1,
      session_A 0, session_A 0, session_Z 1, session_Z 1,
      session_A 0, session_Z 1, session_A 0, session_Z 1]
   \<and> session_A 2 \<notin> set (sessions_initialized (trace (run example_env
         (two_orchestrators_run @ [AnimationFrame]) initial_world)))
   \<and> session_A 2 \<notin> set (sessions_processed (trace (run example_env
         (two_orchestrators_run @ [AnimationFrame]) initial_world)))
   \<and> session_Z 3 \<notin> set (sessions_initialized (trace (run example_env
         (two_orchestrators_run @ [AnimationFrame]) initial_world)))
   \<and> session_Z 3 \<notin> set (sessions_processed (trace (run example_env
         (two_orchestrators_run @ [AnimationFrame]) initial_world)))"
  unfolding two_orchestrators_world two_orchestrators_frame
  by (simp add: session_A_def session_Z_def)

text \<open>
  Before the config-ready event has fired, \<^verbatim>\<open>dispose()\<close> on the orchestrator returned by
  \<^verbatim>\<open>init\<close> or \<^verbatim>\<open>initWithEntities\<close> throws a TypeError, issues no call and changes nothing,
  whatever the arguments and the world; so does every repeated call.
\<close>

lemma dispose_before_config_ready_throws:
  fixes w :: "'n::{zero,numeral,inverse} world"
  shows "dispose (length (instances w)) (snd (init E wd ht urls nms cfg st w)) =
           (Throw JTypeError, snd (init E wd ht urls nms cfg st w))
       \<and> dispose (length (instances w)) (snd (initWithEntities E wd ht es cfg st w)) =
           (Throw JTypeError, snd (initWithEntities E wd ht es cfg st w))
       \<and> dispose (length (instances w))
           (snd (dispose (length (instances w)) (snd (init E wd ht urls nms cfg st w)))) =
           (Throw JTypeError, snd (init E wd ht urls nms cfg st w))"
  by (simp add: initWithEntities_as_init init_eq dispose_def disposeVideoStream_def this_at_def
        constructed_instance_def)

text \<open>
  Claim C3 does not hold of the code. On the orchestrator that \<^verbatim>\<open>init\<close> returns from the
  initial world for one marker, before the config-ready event has fired, \<^verbatim>\<open>cameraView\<close> is
  \<^verbatim>\<open>undefined\<close>: \<^verbatim>\<open>dispose()\<close> throws a TypeError at \<^verbatim>\<open>this.cameraView.destroy()\<close> (line
  251), in \<^verbatim>\<open>disposeVideoStream\<close>, and never reaches \<^verbatim>\<open>NFTWorker.stopNFT()\<close>; a second call
  throws again. The claim requires a call that does not throw. In the same state
  \<^verbatim>\<open>disposeNFT()\<close> returns normally.
\<close>

theorem dispose_throws_on_fresh_orchestrator:
  "map_option cameraView (this_at 0 (snd (init example_env 640 480 [''markerA''] [''Box'']
          ''config.json'' False (initial_world :: real world)))) = Some None
   \<and> fst (dispose 0 (snd (init example_env 640 480 [''markerA''] [''Box''] ''config.json'' False
          (initial_world :: real world)))) = Throw JTypeError
   \<and> snd (dispose 0 (snd (init example_env 640 480 [''markerA''] [''Box''] ''config.json'' False
          (initial_world :: real world)))) =
       snd (init example_env 640 480 [''markerA''] [''Box''] ''config.json'' False
          (initial_world :: real world))
   \<and> fst (dispose 0 (snd (dispose 0 (snd (init example_env 640 480 [''markerA''] [''Box'']
          ''config.json'' False (initial_world :: real world)))))) = Throw JTypeError
   \<and> fst (disposeVideoStream 0 (snd (init example_env 640 480 [''markerA''] [''Box'']
          ''config.json'' False (initial_world :: real world)))) = Throw JTypeError
   \<and> disposeNFT 0 (snd (init example_env 640 480 [''markerA''] [''Box''] ''config.json''
          False (initial_world :: real world))) =
       (Normal (),
        (snd (init example_env 640 480 [''markerA''] [''Box''] ''config.json''
          False (initial_world :: real world)))
        \<lparr>trace := trace (snd (init example_env 640 480 [''markerA''] [''Box''] ''config.json''
          False (initial_world :: real world))) @ [StopNFT]\<rparr>)"
  by (simp add: init_def new_ARnft_def setFPS_def initialize_def this_at_def calls_def
        dispose_def disposeVideoStream_def disposeNFT_def
        initial_world_def example_env_def Let_def)

text \<open>
  Claim C8. On an orchestrator whose Camera View exists, one call of \<^verbatim>\<open>dispose()\<close> returns
  normally and issues exactly two calls: \<^verbatim>\<open>destroy\<close> on that Camera View, then the global
  stop; each occurs exactly once more in the trace than before.
\<close>

theorem dispose_stops_and_destroys_once:
  assumes "map_option cameraView (this_at a w) = Some (Some cam)"
  shows "dispose a w = (Normal (), w\<lparr>trace := trace w @ [CameraDestroy cam, StopNFT]\<rparr>)
       \<and> count_list (trace (snd (dispose a w))) StopNFT = Suc (count_list (trace w) StopNFT)
       \<and> count_list (trace (snd (dispose a w))) (CameraDestroy cam) =
           Suc (count_list (trace w) (CameraDestroy cam))"
  using assms
  by (auto simp: dispose_def disposeVideoStream_def disposeNFT_def calls_def
        split: option.splits)

text \<open>After the sessions of one marker have been started from the initial world.\<close>

theorem dispose_stops_and_destroys_once_witness:
  "map_option cameraView (this_at 0 (camera_settled 0 (Fulfilled ())
         (dispatch_getConfig example_config
           (snd (init example_env 640 480 [''markerA''] [''Box''] ''config.json'' False
                  (initial_world :: real world)))))) = Some (Some 0)
   \<and> fst (dispose 0 (camera_settled 0 (Fulfilled ())
         (dispatch_getConfig example_config
           (snd (init example_env 640 480 [''markerA''] [''Box''] ''config.json'' False
                  (initial_world :: real world)))))) = Normal ()
   \<and> count_list (trace (snd (dispose 0 (camera_settled 0 (Fulfilled ())
         (dispatch_getConfig example_config
           (snd (init example_env 640 480 [''markerA''] [''Box''] ''config.json'' False
                  (initial_world :: real world)))))))) StopNFT = 1"
proof -
  let ?W = "camera_settled 0 (Fulfilled ())
         (dispatch_getConfig example_config
           (snd (init example_env 640 480 [''markerA''] [''Box''] ''config.json'' False
                  (initial_world :: real world))))"
  have h: "map_option cameraView (this_at 0 ?W) = Some (Some 0)"
    using config_ready_fulfilled(1) [where w = "initial_world :: real world"
      and config = example_config and E = example_env and wd = 640 and ht = 480
      and urls = "[''markerA'']" and nms = "[''Box'']" and cfg = "''config.json''" and st = False]
    by (simp add: initial_world_def wf_world_def)
  have t: "count_list (trace ?W) StopNFT = 0"
    using config_ready_fulfilled(2) [where w = "initial_world :: real world"
      and config = example_config and E = example_env and wd = 640 and ht = 480
      and urls = "[''markerA'']" and nms = "[''Box'']" and cfg = "''config.json''" and st = False]
    by (simp add: initial_world_def wf_world_def session_calls_def init_def new_ARnft_def
          setFPS_def initialize_def this_at_def calls_def dispatch_getConfig_def on_getConfig_def
          set_this_def example_env_def example_config_def Let_def)
  show ?thesis
    using dispose_stops_and_destroys_once [OF h] h t by simp
qed

text \<open>
  Claim C10. \<^verbatim>\<open>disposeNFT()\<close> returns normally on every handle and in every world, also on
  an instance that has been constructed and never initialized; it appends the global stop
  to the trace and nothing else: the instances are unchanged, and the result does not
  depend on them.
\<close>

theorem disposeNFT_reads_no_instance_state:
  fixes w :: "'n::{zero,numeral,inverse} world"
  shows "disposeNFT a w = (Normal (), w\<lparr>trace := trace w @ [StopNFT]\<rparr>)
       \<and> instances (snd (disposeNFT a w)) = instances w
       \<and> disposeNFT a (w\<lparr>instances := insts\<rparr>) =
           (Normal (), (snd (disposeNFT a w))\<lparr>instances := insts\<rparr>)
       \<and> fst (disposeNFT (length (instances w)) (snd (new_ARnft E wd ht cfg w))) = Normal ()
       \<and> instances (snd (disposeNFT (length (instances w)) (snd (new_ARnft E wd ht cfg w)))) =
           instances (snd (new_ARnft E wd ht cfg w))"
  by (simp add: disposeNFT_def calls_def)

text \<open>
  Claim C5. For every \<open>v\<close> of the number type, positive, zero or negative, \<^verbatim>\<open>setFPS(v)\<close>
  returns normally and stores the quotient of 1000 by \<open>v\<close> in \<^verbatim>\<open>_fps\<close>, leaving the other
  fields as they are. The quotient is the division of the number type, whatever it
  yields at zero. The constructor calls \<^verbatim>\<open>setFPS(15)\<close>, so a new instance holds the period
  of 15 frames per second.
\<close>

theorem setFPS_stores_period:
  fixes w :: "'n::{zero,numeral,inverse} world"
  shows "fst (setFPS v this) = Normal ()
       \<and> fps (snd (setFPS v this)) = 1000 / v
       \<and> snd (setFPS v this) = this\<lparr>fps := 1000 / v\<rparr>
       \<and> map_option fps (this_at (length (instances w)) (snd (new_ARnft E wd ht cfg w))) =
           Some (1000 / 15)"
  by (simp add: setFPS_def new_ARnft_eq this_at_def constructed_instance_def)

text \<open>
  Claim C6, as amended. The promise returned by \<^verbatim>\<open>init\<close> and by \<^verbatim>\<open>initWithEntities\<close> is
  pending when the call returns. At that moment the calls issued are the log line of the
  constructor, the \<^verbatim>\<open>initARnft\<close> event, the log line of \<^verbatim>\<open>_initialize\<close>, the configuration
  request and the registration of the listener, in this order, and nothing else. The
  microtask checkpoint of the task of the call fulfils the promise with the constructed
  orchestrator, whatever the task runs after the call (\<open>code\<close>) and with no config-ready
  event. A config-ready event dispatched by a later task finds the promise fulfilled, and
  its listeners start from the world the call left.

  When the task of the call runs nothing more, the world at the moment of fulfilment is
  the world the call left: the orchestrator has no configuration, no Camera View and no
  session list, no listener run is suspended, no Camera View and no session has been
  constructed, and no animation callback is queued. When the task goes on with the
  actions \<open>acts\<close>, none of which dispatches the config-ready event, the orchestrator
  still has no configuration, no Camera View and no session list at the moment of
  fulfilment, and no run of its listener is suspended; this is on a page where the
  \<^verbatim>\<open>this\<close> of every suspended run is an instance, as on every reachable page
  (\<open>wf_awaiting_reachable\<close>).
\<close>

theorem init_promise_pending_then_fulfilled:
  fixes pg :: "'n::{zero,numeral,inverse} page"
    and E :: env and wd ht :: 'n and urls nms :: "string list" and cfg :: string and st :: bool
    and es :: "Entity list" and code :: "'n world \<Rightarrow> 'n world" and config :: ConfigData
    and acts :: "'n action list"
  defines "a \<equiv> length (instances (world_of pg))"
    and "p \<equiv> length (returned pg)"
    and "called \<equiv> snd (call_init E wd ht urls nms cfg st pg)"
    and "calledE \<equiv> snd (call_initWithEntities E wd ht es cfg st pg)"
    and "l \<equiv> \<lparr>l_this = length (instances (world_of pg)), l_markerUrls = urls, l_names = nms,
               l_stats = st\<rparr>"
    and "resolved \<equiv> run_microtasks (in_task (run E acts)
                       (snd (call_init E wd ht urls nms cfg st pg)))"
  shows "fst (call_init E wd ht urls nms cfg st pg) = p
       \<and> nth_opt (returned called) p = Some Pending
       \<and> world_of called = snd (init E wd ht urls nms cfg st (world_of pg))
       \<and> trace (world_of called) = trace (world_of pg) @
           [ConsoleLog [''ARnft '', package_version E], DispatchEvent ''initARnft'',
            ConsoleLog init_start_message, GetConfig cfg, AddEventListener ''getConfig'' l]
       \<and> getConfig_listeners (world_of called) = getConfig_listeners (world_of pg) @ [l]
       \<and> nth_opt (returned (run_microtasks (in_task code called))) p = Some (Settled (Fulfilled a))
       \<and> nth_opt (returned (run_microtasks called)) p = Some (Settled (Fulfilled a))
       \<and> nth_opt (returned (next_task (dispatch_getConfig config) called)) p =
           Some (Settled (Fulfilled a))
       \<and> world_of (next_task (dispatch_getConfig config) called) =
           dispatch_getConfig config (world_of called)
       \<and> world_of (run_microtasks called) = world_of called
       \<and> this_at a (world_of (run_microtasks called)) =
           Some (constructed_instance E wd ht cfg (uuid_calls (world_of pg)))
       \<and> map_option cameraView (this_at a (world_of (run_microtasks called))) = Some None
       \<and> map_option appData (this_at a (world_of (run_microtasks called))) = Some None
       \<and> map_option controllers (this_at a (world_of (run_microtasks called))) = Some None
       \<and> awaiting_camera (world_of (run_microtasks called)) = awaiting_camera (world_of pg)
       \<and> animation_callbacks (world_of (run_microtasks called)) =
           animation_callbacks (world_of pg)
       \<and> cameras_created (world_of (run_microtasks called)) = cameras_created (world_of pg)
       \<and> workers_created (world_of (run_microtasks called)) = workers_created (world_of pg)
       \<and> (wf_awaiting (world_of pg) \<and> \<not> list_ex dispatches_config_ready acts \<longrightarrow>
             nth_opt (returned resolved) p = Some (Settled (Fulfilled a))
           \<and> world_of resolved = run E acts (world_of called)
           \<and> map_option session_fields (this_at a (world_of resolved)) =
               Some (None, None, None, wd, ht, uuidv4 E (uuid_calls (world_of pg)))
           \<and> filter (\<lambda>r. l_this (snd r) = a) (awaiting_camera (world_of resolved)) = [])
       \<and> fst (call_initWithEntities E wd ht es cfg st pg) = p
       \<and> nth_opt (returned calledE) p = Some Pending
       \<and> nth_opt (returned (run_microtasks (in_task code calledE))) p =
           Some (Settled (Fulfilled a))
       \<and> world_of (run_microtasks calledE) =
           (snd (init E wd ht (map markerUrl es) (map name es) cfg st (world_of pg)))
           \<lparr>entities := Some es\<rparr>"
proof -
  let ?w = "world_of pg"
  let ?v = "snd (init E wd ht urls nms cfg st ?w)"
  have i: "init E wd ht urls nms cfg st ?w =
             (Fulfilled a, snd (init E wd ht urls nms cfg st ?w))"
    by (simp add: init_eq a_def)
  have e: "initWithEntities E wd ht es cfg st ?w =
             (Fulfilled a,
              (snd (init E wd ht (map markerUrl es) (map name es) cfg st ?w))
              \<lparr>entities := Some es\<rparr>)"
    by (simp add: initWithEntities_as_init init_eq a_def)
  note ci = async_call_settles [where body = "init E wd ht urls nms cfg st" and pg = pg, OF i]
  note ce = async_call_settles [where body = "initWithEntities E wd ht es cfg st" and pg = pg, OF e]
  have c1: "fst (call_init E wd ht urls nms cfg st pg) = p"
    unfolding call_init_def p_def by (rule ci(1))
  have c2: "world_of called = snd (init E wd ht urls nms cfg st ?w)"
    unfolding call_init_def called_def by (rule ci(2))
  have c3: "nth_opt (returned called) p = Some Pending"
    unfolding call_init_def called_def p_def by (rule ci(3))
  have c4: "nth_opt (returned (run_microtasks (in_task code called))) p =
              Some (Settled (Fulfilled a))"
    unfolding call_init_def called_def p_def by (rule ci(4))
  have c5: "world_of (run_microtasks called) = snd (init E wd ht urls nms cfg st ?w)"
    unfolding call_init_def called_def by (rule ci(5))
  have c6: "nth_opt (returned (run_microtasks called)) p = Some (Settled (Fulfilled a))"
    unfolding call_init_def called_def p_def by (rule ci(6))
  have c7: "nth_opt (returned (next_task (dispatch_getConfig config) called)) p =
              Some (Settled (Fulfilled a))"
    unfolding call_init_def called_def p_def by (rule ci(7))
  have c8: "world_of (next_task (dispatch_getConfig config) called) =
              dispatch_getConfig config (snd (init E wd ht urls nms cfg st ?w))"
    unfolding call_init_def called_def by (rule ci(8))
  have e1: "fst (call_initWithEntities E wd ht es cfg st pg) = p"
    unfolding call_initWithEntities_def p_def by (rule ce(1))
  have e3: "nth_opt (returned calledE) p = Some Pending"
    unfolding call_initWithEntities_def calledE_def p_def by (rule ce(3))
  have e4: "nth_opt (returned (run_microtasks (in_task code calledE))) p =
              Some (Settled (Fulfilled a))"
    unfolding call_initWithEntities_def calledE_def p_def by (rule ce(4))
  have e5: "world_of (run_microtasks calledE) =
           (snd (init E wd ht (map markerUrl es) (map name es) cfg st ?w))
           \<lparr>entities := Some es\<rparr>"
    unfolding call_initWithEntities_def calledE_def by (rule ce(5))
  have r1: "nth_opt (returned resolved) p = Some (Settled (Fulfilled a))"
    unfolding resolved_def call_init_def p_def by (rule ci(4))
  have r2: "world_of resolved = run E acts ?v"
    unfolding resolved_def call_init_def
    by (rule async_call_world [where body = "init E wd ht urls nms cfg st" and pg = pg, OF i])
  have r34: "map_option session_fields (this_at a (run E acts ?v)) =
               Some (None, None, None, wd, ht, uuidv4 E (uuid_calls ?w))
           \<and> filter (\<lambda>r. l_this (snd r) = a) (awaiting_camera (run E acts ?v)) = []"
    if wa: "wf_awaiting ?w" and q: "\<not> list_ex dispatches_config_ready acts"
  proof -
    have len0: "a < length (instances ?v)" by (simp add: init_eq a_def)
    have f0: "map_option session_fields (this_at a ?v) =
                Some (None, None, None, wd, ht, uuidv4 E (uuid_calls ?w))"
      by (simp add: init_eq a_def this_at_def session_fields_def constructed_instance_def)
    have own0: "\<forall>r \<in> set (awaiting_camera ?v). l_this (snd r) \<noteq> a"
      using wa by (auto simp: wf_awaiting_def list_all_iff init_eq a_def)
    have o: "\<forall>r \<in> set (awaiting_camera ?v). l_this (snd r) = a \<longrightarrow>
              \<not> list_ex (settles (fst r)) acts"
      using own0 by simp
    have z: "filter (\<lambda>r. l_this (snd r) = a) (awaiting_camera ?v) = []"
      using own0 by (simp add: filter_empty_conv)
    show ?thesis using run_frame [OF q o len0, of E 0] f0 z by simp
  qed
  show ?thesis
    unfolding c1 c2 c3 c4 c5 c6 c7 c8 e1 e3 e4 e5 r1 r2
    using r34
    by (simp add: init_eq this_at_def init_calls_def constructed_instance_def a_def l_def)
qed

text \<open>
  From the initial page: the task of the call goes on with a new video frame and the call
  that creates a second orchestrator.
\<close>

theorem init_promise_pending_then_fulfilled_witness:
  "wf_awaiting (world_of (initial_page :: real page))
   \<and> \<not> list_ex dispatches_config_ready
         [VideoFrame (JObject 7),
          CallInit 320 240 [''markerZ''] [''Zed''] ''other.json'' False :: real action]
   \<and> nth_opt (returned (run_microtasks (in_task
         (run example_env [VideoFrame (JObject 7),
            CallInit 320 240 [''markerZ''] [''Zed''] ''other.json'' False])
         (snd (call_init example_env 640 480 [''markerA''] [''Box''] ''config.json'' False
                 (initial_page :: real page)))))) 0 = Some (Settled (Fulfilled 0))
   \<and> map_option session_fields (this_at 0 (world_of (run_microtasks (in_task
         (run example_env [VideoFrame (JObject 7),
            CallInit 320 240 [''markerZ''] [''Zed''] ''other.json'' False])
         (snd (call_init example_env 640 480 [''markerA''] [''Box''] ''config.json'' False
                 (initial_page :: real page))))))) =
       Some (None, None, None, 640, 480, ''uuid-'')"
proof -
  let ?X = "run_microtasks (in_task
         (run example_env [VideoFrame (JObject 7),
            CallInit 320 240 [''markerZ''] [''Zed''] ''other.json'' False])
         (snd (call_init example_env 640 480 [''markerA''] [''Box''] ''config.json'' False
                 (initial_page :: real page))))"
  note t = init_promise_pending_then_fulfilled [where pg = "initial_page :: real page"
      and E = example_env and wd = 640 and ht = 480 and urls = "[''markerA'']"
      and nms = "[''Box'']" and cfg = "''config.json''" and st = False
      and acts = "[VideoFrame (JObject 7),
            CallInit 320 240 [''markerZ''] [''Zed''] ''other.json'' False]"
      and code = "\<lambda>w. w" and config = example_config and es = "[]"]
  have h1: "wf_awaiting (world_of (initial_page :: real page))"
    by (simp add: initial_page_def wf_awaiting_initial_world)
  have h2: "\<not> list_ex dispatches_config_ready
         [VideoFrame (JObject 7),
          CallInit 320 240 [''markerZ''] [''Zed''] ''other.json'' False :: real action]"
    by simp
  from t h1 h2 have
    r: "nth_opt (returned ?X) (length (returned (initial_page :: real page))) =
          Some (Settled (Fulfilled (length (instances (world_of (initial_page :: real page))))))"
       "map_option session_fields
          (this_at (length (instances (world_of (initial_page :: real page)))) (world_of ?X)) =
          Some (None, None, None, 640, 480,
                uuidv4 example_env (uuid_calls (world_of (initial_page :: real page))))"
    by blast+
  show ?thesis
    using r h1 h2 by (simp add: initial_page_def initial_world_def example_env_def)
qed

text \<open>
  The claim as stated fails when the event is dispatched in the task of the call, after
  the call has returned: the promise is still pending while the listener stores the
  configuration, has the containers made, empties the session list, constructs the Camera
  View and calls its \<^verbatim>\<open>initialize\<close>; the checkpoint then fulfils the promise in that
  world.
\<close>

theorem init_promise_pending_at_synchronous_event_counterexample:
  "returned synchronous_event_page = [Pending]
   \<and> trace (world_of synchronous_event_page) =
       [ConsoleLog [''ARnft '', ''1.0.0''], DispatchEvent ''initARnft'',
        ConsoleLog init_start_message, GetConfig ''config.json'',
        AddEventListener ''getConfig''
          \<lparr>l_this = 0, l_markerUrls = [''markerA''], l_names = [''Box''], l_stats = False\<rparr>,
        CreateContainer example_config, CreateLoading example_config,
        CreateStats False example_config,
        NewCameraViewRenderer 0 ''video'', CameraInitialize 0 (JObject 0)]
   \<and> map_option cameraView (this_at 0 (world_of synchronous_event_page)) = Some (Some 0)
   \<and> map_option controllers (this_at 0 (world_of synchronous_event_page)) = Some (Some [])
   \<and> returned (run_microtasks synchronous_event_page) = [Settled (Fulfilled 0)]
   \<and> world_of (run_microtasks synchronous_event_page) = world_of synchronous_event_page"
  by (simp add: synchronous_event_page_def call_init_def async_call_def in_task_def
        run_microtasks_def settle_def initial_page_def init_def new_ARnft_def setFPS_def
        initialize_def this_at_def calls_def dispatch_getConfig_def on_getConfig_def set_this_def
        initial_world_def example_env_def example_config_def Let_def)

text \<open>
  Claim C9. \<^verbatim>\<open>initWithEntities\<close> returns what \<^verbatim>\<open>init\<close> returns on the projections of the
  entity list, and leaves the world \<^verbatim>\<open>init\<close> leaves except that the static entity list is
  its argument; the same holds after the config-ready event and after the camera promise
  has settled, whatever the outcome.
\<close>

theorem initWithEntities_refines_init:
  fixes w :: "'n::{zero,numeral,inverse} world"
  shows "initWithEntities E wd ht es cfg st w =
           (case init E wd ht (map markerUrl es) (map name es) cfg st w of
              (p, w') \<Rightarrow> (p, w'\<lparr>entities := Some es\<rparr>))
       \<and> dispatch_getConfig config (snd (initWithEntities E wd ht es cfg st w)) =
           (dispatch_getConfig config
              (snd (init E wd ht (map markerUrl es) (map name es) cfg st w)))
           \<lparr>entities := Some es\<rparr>
       \<and> camera_settled cam outcome
             (dispatch_getConfig config (snd (initWithEntities E wd ht es cfg st w))) =
           (camera_settled cam outcome
              (dispatch_getConfig config
                 (snd (init E wd ht (map markerUrl es) (map name es) cfg st w))))
           \<lparr>entities := Some es\<rparr>"
proof -
  have s: "snd (initWithEntities E wd ht es cfg st w) =
           (snd (init E wd ht (map markerUrl es) (map name es) cfg st w))\<lparr>entities := Some es\<rparr>"
    by (simp add: initWithEntities_as_init init_eq)
  have 1: "initWithEntities E wd ht es cfg st w =
           (case init E wd ht (map markerUrl es) (map name es) cfg st w of
              (p, w') \<Rightarrow> (p, w'\<lparr>entities := Some es\<rparr>))"
    by (simp add: initWithEntities_as_init init_eq)
  show ?thesis
    unfolding s dispatch_getConfig_entities camera_settled_entities using 1 by simp
qed

lemma step_entities:
  fixes w :: "'n::{zero,numeral,inverse} world"
  shows "entities (step E act w) =
     (case act of CallInitWithEntities wd ht es cfg st \<Rightarrow> Some es | _ \<Rightarrow> entities w)"
proof (cases act)
  case (ConfigReady config)
  then show ?thesis
    using entities_preserved [of "dispatch_getConfig config" w]
    by (simp add: dispatch_getConfig_entities)
next
  case (CameraSettled cam outcome)
  then show ?thesis
    using entities_preserved [of "camera_settled cam outcome" w]
    by (simp add: camera_settled_entities)
next
  case AnimationFrame
  then show ?thesis
    using entities_preserved [of animation_frame w]
    by (simp add: animation_frame_entities)
qed (simp_all add: init_eq initWithEntities_as_init set_this_def dispose_def disposeVideoStream_def
       disposeNFT_def calls_def split: option.splits)

lemma run_entities:
  fixes w :: "'n::{zero,numeral,inverse} world"
  shows "entities (run E acts w) = entities_passed acts (entities w)"
  unfolding run_def
proof (induction acts arbitrary: w)
  case Nil
  then show ?case by simp
next
  case (Cons act acts)
  show ?case
    using step_entities [of E act w] by (cases act) (simp_all add: Cons.IH)
qed

text \<open>
  Claim C4. After any run of host actions, \<^verbatim>\<open>getEntities()\<close> returns the entity list passed
  to the most recent call of \<^verbatim>\<open>initWithEntities\<close>, and what it returned before the run when
  the run has no such call: \<^verbatim>\<open>undefined\<close> from the initial world. In particular a second
  call overwrites the list of the first, and \<^verbatim>\<open>init\<close> does not touch it.
\<close>

theorem getEntities_last_write_wins:
  fixes w :: "'n::{zero,numeral,inverse} world"
  shows "getEntities (run E acts w) = entities_passed acts (getEntities w)
       \<and> getEntities (run E acts (initial_world :: 'n world)) = entities_passed acts None
       \<and> getEntities (snd (initWithEntities E wd ht es cfg st w)) = Some es
       \<and> getEntities (snd (initWithEntities E wd2 ht2 es2 cfg2 st2
                             (snd (initWithEntities E wd ht es cfg st w)))) = Some es2
       \<and> getEntities (snd (init E wd ht urls nms cfg st w)) = getEntities w
       \<and> getEntities (initial_world :: 'n world) = None"
  by (simp add: getEntities_def run_entities initWithEntities_as_init init_eq)
     (simp add: initial_world_def)

end
